theory Spec2Isabelle
  imports Complex_Main "HOL-Library.Multiset"
begin

text \<open>
  The analytics engine of the dashboard (package \<open>services\<close>, with the structs of package
  \<open>models\<close>): aggregation of transactions into four maps, merging of batches, sorting into
  rollup slices, the snapshot cache and the query accessors, embedded as functions, with
  the properties of the specification proved or refuted about them.
\<close>

section \<open>Values of the Go program\<close>

text \<open>
  Go's \<open>int\<close> is modelled by \<open>int\<close>: the counters of the engine grow by one per row or by
  a parsed quantity, and no property below depends on 64-bit wrap-around.

  Go's \<open>float64\<close> is modelled by its finite values, taken as exact reals, and the value
  NaN, which every comparison answers with false and which every sum propagates. Rounding,
  overflow of finite sums and the infinities are outside this model.
\<close>

datatype float64 = NaN | Fin real

fun f_add :: "float64 \<Rightarrow> float64 \<Rightarrow> float64" where
  "f_add (Fin a) (Fin b) = Fin (a + b)"
| "f_add _ _ = NaN"

fun f_gt :: "float64 \<Rightarrow> float64 \<Rightarrow> bool" where
  "f_gt (Fin a) (Fin b) = (b < a)"
| "f_gt _ _ = False"

fun f_lt :: "float64 \<Rightarrow> float64 \<Rightarrow> bool" where
  "f_lt (Fin a) (Fin b) = (a < b)"
| "f_lt _ _ = False"

fun f_ge :: "float64 \<Rightarrow> float64 \<Rightarrow> bool" where
  "f_ge (Fin a) (Fin b) = (b \<le> a)"
| "f_ge _ _ = False"

text \<open>The real number that a finite value stands for.\<close>

fun fin_value :: "float64 \<Rightarrow> real" where
  "fin_value (Fin r) = r"
| "fin_value NaN = 0"

text \<open>
  A \<open>time.Time\<close> that is compared (\<open>ModTime\<close>, \<open>LastModified\<close>) is an instant, a number of
  nanoseconds. A \<open>time.Time\<close> that is a transaction date is a calendar date, which is all
  that \<open>time.Parse("2006-01-02", _)\<close> produces and all that \<open>Format("2006-01")\<close> reads.
\<close>

type_synonym instant = int

record date =
  d_year :: nat
  d_month :: nat
  d_day :: nat

definition zeroDate :: date where
  "zeroDate = \<lparr>d_year = 1, d_month = 1, d_day = 1\<rparr>"

definition digit :: "nat \<Rightarrow> char" where
  "digit n = ''0123456789'' ! n"

function digits :: "nat \<Rightarrow> string" where
  "digits n = (if n < 10 then [digit n] else digits (n div 10) @ [digit (n mod 10)])"
  by pat_completeness auto
termination
  by (relation "measure id") auto

text \<open>\<open>appendInt\<close> of package time: decimal digits, padded with zeros to a width.\<close>

definition appendInt :: "nat \<Rightarrow> nat \<Rightarrow> string" where
  "appendInt n w = replicate (w - length (digits n)) (CHR ''0'') @ digits n"

text \<open>\<open>t.Format("2006-01")\<close>.\<close>

definition Format_2006_01 :: "date \<Rightarrow> string" where
  "Format_2006_01 d = appendInt (d_year d) 4 @ ''-'' @ appendInt (d_month d) 2"

section \<open>Package models\<close>

record Transaction =
  tx_TransactionID :: string
  tx_Date :: date
  tx_UserID :: string
  tx_Country :: string
  tx_Region :: string
  tx_ProductID :: string
  tx_ProductName :: string
  tx_Category :: string
  tx_Price :: float64
  tx_Quantity :: int
  tx_TotalPrice :: float64
  tx_Stock :: int
  tx_AddedDate :: date

record CountryRevenue =
  cr_Country :: string
  cr_ProductName :: string
  cr_Category :: string
  cr_TotalRevenue :: float64
  cr_Transactions :: int

record ProductFrequency =
  pf_ProductName :: string
  pf_Category :: string
  pf_Frequency :: int
  pf_StockQuantity :: int

record MonthlyData =
  md_Month :: string
  md_Volume :: float64

record RegionRevenue =
  rr_Region :: string
  rr_Revenue :: float64
  rr_ItemsSold :: int

text \<open>The zero value \<open>models.Transaction{}\<close>.\<close>

definition zeroTransaction :: Transaction where
  "zeroTransaction =
     \<lparr>tx_TransactionID = [], tx_Date = zeroDate, tx_UserID = [], tx_Country = [],
      tx_Region = [], tx_ProductID = [], tx_ProductName = [], tx_Category = [],
      tx_Price = Fin 0, tx_Quantity = 0, tx_TotalPrice = Fin 0, tx_Stock = 0,
      tx_AddedDate = zeroDate\<rparr>"

section \<open>Package services: the analytics engine\<close>

definition batchSize :: nat where
  "batchSize = 10000"

text \<open>A nil slice and an empty slice are both the empty list: \<open>len\<close> is 0 for either.\<close>

record PrecomputedData =
  pd_CountryRevenue :: "CountryRevenue list"
  pd_TopProducts :: "ProductFrequency list"
  pd_MonthlySales :: "MonthlyData list"
  pd_TopRegions :: "RegionRevenue list"
  pd_LastModified :: instant
  pd_RecordCount :: int

text \<open>What the engine writes to its logger is kept, in order, with the engine.\<close>

datatype log_entry =
    LoadedFromCache int
  | ProcessingCSVFile string
  | FailedToSaveCache
  | CSVProcessingComplete int

record Analytics =
  precomputed :: PrecomputedData
  csvPath :: string
  recordsProcessed :: int
  logger :: "log_entry list"

definition NewAnalytics :: Analytics where
  "NewAnalytics =
     \<lparr>precomputed = \<lparr>pd_CountryRevenue = [], pd_TopProducts = [], pd_MonthlySales = [],
                      pd_TopRegions = [], pd_LastModified = 0, pd_RecordCount = 0\<rparr>,
      csvPath = [], recordsProcessed = 0, logger = []\<rparr>"

subsection \<open>Query accessors\<close>

text \<open>
  The slice expression \<open>s[:n]\<close> panics at run time when \<open>n\<close> is negative or exceeds the
  capacity. The capacity is taken to be the length: the accessors reach the expression
  only with \<open>n\<close> below the length.
\<close>

datatype panic = SliceBoundsOutOfRange int

definition slice_to :: "'a list \<Rightarrow> int \<Rightarrow> panic + 'a list" where
  "slice_to s n =
     (if n < 0 \<or> int (length s) < n then Inl (SliceBoundsOutOfRange n)
      else Inr (take (nat n) s))"

definition CountryRevenue :: "Analytics \<Rightarrow> CountryRevenue list" where
  "CountryRevenue a = pd_CountryRevenue (precomputed a)"

definition TopProducts :: "Analytics \<Rightarrow> int \<Rightarrow> panic + ProductFrequency list" where
  "TopProducts a limit =
     (if int (length (pd_TopProducts (precomputed a))) \<le> limit
      then Inr (pd_TopProducts (precomputed a))
      else slice_to (pd_TopProducts (precomputed a)) limit)"

definition MonthlySales :: "Analytics \<Rightarrow> MonthlyData list" where
  "MonthlySales a = pd_MonthlySales (precomputed a)"

definition TopRegions :: "Analytics \<Rightarrow> int \<Rightarrow> panic + RegionRevenue list" where
  "TopRegions a limit =
     (if int (length (pd_TopRegions (precomputed a))) \<le> limit
      then Inr (pd_TopRegions (precomputed a))
      else slice_to (pd_TopRegions (precomputed a)) limit)"

subsection \<open>Aggregation maps\<close>

text \<open>
  A Go map from strings to struct pointers is a partial function; a missing key (a nil
  lookup) is \<open>None\<close>. The engine never stores a nil pointer and never shares a struct
  between two maps, so the structs are kept as values.
\<close>

record groups =
  countryGroups :: "string \<rightharpoonup> CountryRevenue"
  productGroups :: "string \<rightharpoonup> ProductFrequency"
  monthlyGroups :: "string \<rightharpoonup> float64"
  regionGroups :: "string \<rightharpoonup> RegionRevenue"

text \<open>The four \<open>make(map[string]...)\<close> calls.\<close>

definition newGroups :: groups where
  "newGroups = \<lparr>countryGroups = Map.empty, productGroups = Map.empty,
                 monthlyGroups = Map.empty, regionGroups = Map.empty\<rparr>"

definition countryKey :: "Transaction \<Rightarrow> string" where
  "countryKey tx = tx_Country tx @ ''|'' @ tx_ProductName tx @ ''|'' @ tx_Category tx"

definition aggregateCountry ::
  "Transaction \<Rightarrow> (string \<rightharpoonup> CountryRevenue) \<Rightarrow> (string \<rightharpoonup> CountryRevenue)" where
  "aggregateCountry tx g =
     (let e = (case g (countryKey tx) of
                 None \<Rightarrow> \<lparr>cr_Country = tx_Country tx, cr_ProductName = tx_ProductName tx,
                           cr_Category = tx_Category tx, cr_TotalRevenue = Fin 0,
                           cr_Transactions = 0\<rparr>
               | Some e \<Rightarrow> e)
      in g(countryKey tx \<mapsto>
             e\<lparr>cr_TotalRevenue := f_add (cr_TotalRevenue e) (tx_TotalPrice tx),
               cr_Transactions := cr_Transactions e + 1\<rparr>))"

definition aggregateProduct ::
  "Transaction \<Rightarrow> (string \<rightharpoonup> ProductFrequency) \<Rightarrow> (string \<rightharpoonup> ProductFrequency)" where
  "aggregateProduct tx g =
     (let e = (case g (tx_ProductName tx) of
                 None \<Rightarrow> \<lparr>pf_ProductName = tx_ProductName tx, pf_Category = tx_Category tx,
                           pf_Frequency = 0, pf_StockQuantity = tx_Stock tx\<rparr>
               | Some e \<Rightarrow> e)
      in g(tx_ProductName tx \<mapsto> e\<lparr>pf_Frequency := pf_Frequency e + 1\<rparr>))"

definition aggregateMonthly ::
  "Transaction \<Rightarrow> (string \<rightharpoonup> float64) \<Rightarrow> (string \<rightharpoonup> float64)" where
  "aggregateMonthly tx g =
     (let month = Format_2006_01 (tx_Date tx)
      in g(month \<mapsto> f_add (case g month of None \<Rightarrow> Fin 0 | Some v \<Rightarrow> v) (tx_TotalPrice tx)))"

definition aggregateRegion ::
  "Transaction \<Rightarrow> (string \<rightharpoonup> RegionRevenue) \<Rightarrow> (string \<rightharpoonup> RegionRevenue)" where
  "aggregateRegion tx g =
     (let e = (case g (tx_Region tx) of
                 None \<Rightarrow> \<lparr>rr_Region = tx_Region tx, rr_Revenue = Fin 0, rr_ItemsSold = 0\<rparr>
               | Some e \<Rightarrow> e)
      in g(tx_Region tx \<mapsto>
             e\<lparr>rr_Revenue := f_add (rr_Revenue e) (tx_TotalPrice tx),
               rr_ItemsSold := rr_ItemsSold e + tx_Quantity tx\<rparr>))"

definition aggregateTransaction :: "Transaction \<Rightarrow> groups \<Rightarrow> groups" where
  "aggregateTransaction tx g =
     \<lparr>countryGroups = aggregateCountry tx (countryGroups g),
      productGroups = aggregateProduct tx (productGroups g),
      monthlyGroups = aggregateMonthly tx (monthlyGroups g),
      regionGroups = aggregateRegion tx (regionGroups g)\<rparr>"

subsection \<open>Iterating over a map\<close>

text \<open>
  The order in which \<open>range\<close> visits the keys of a map is chosen by the Go runtime and
  may differ from one loop to the next. Every function with a \<open>range\<close> loop over a map
  takes the order of that loop as an argument: a list holding each key of the map once.
\<close>

definition range_order :: "('k \<rightharpoonup> 'v) \<Rightarrow> 'k list \<Rightarrow> bool" where
  "range_order m ks \<longleftrightarrow> distinct ks \<and> set ks = dom m"

record orders =
  o_country :: "string list"
  o_product :: "string list"
  o_monthly :: "string list"
  o_region :: "string list"

definition range_orders :: "groups \<Rightarrow> orders \<Rightarrow> bool" where
  "range_orders g os \<longleftrightarrow>
     range_order (countryGroups g) (o_country os) \<and>
     range_order (productGroups g) (o_product os) \<and>
     range_order (monthlyGroups g) (o_monthly os) \<and>
     range_order (regionGroups g) (o_region os)"

subsection \<open>Merging a batch into the global maps\<close>

definition mergeCountryEntry :: "CountryRevenue \<Rightarrow> CountryRevenue option \<Rightarrow> CountryRevenue" where
  "mergeCountryEntry v gk =
     (let e = (case gk of
                 None \<Rightarrow> \<lparr>cr_Country = cr_Country v, cr_ProductName = cr_ProductName v,
                           cr_Category = cr_Category v, cr_TotalRevenue = Fin 0,
                           cr_Transactions = 0\<rparr>
               | Some e \<Rightarrow> e)
      in e\<lparr>cr_TotalRevenue := f_add (cr_TotalRevenue e) (cr_TotalRevenue v),
           cr_Transactions := cr_Transactions e + cr_Transactions v\<rparr>)"

definition mergeResults ::
  "(string \<rightharpoonup> CountryRevenue) \<Rightarrow> (string \<rightharpoonup> CountryRevenue) \<Rightarrow> string list
     \<Rightarrow> (string \<rightharpoonup> CountryRevenue)" where
  "mergeResults local global ks =
     fold (\<lambda>k g. case local k of None \<Rightarrow> g | Some v \<Rightarrow> g(k \<mapsto> mergeCountryEntry v (g k)))
       ks global"

definition mergeProductEntry ::
  "ProductFrequency \<Rightarrow> ProductFrequency option \<Rightarrow> ProductFrequency" where
  "mergeProductEntry v gk =
     (let e = (case gk of
                 None \<Rightarrow> \<lparr>pf_ProductName = pf_ProductName v, pf_Category = pf_Category v,
                           pf_Frequency = 0, pf_StockQuantity = pf_StockQuantity v\<rparr>
               | Some e \<Rightarrow> e)
      in e\<lparr>pf_Frequency := pf_Frequency e + pf_Frequency v\<rparr>)"

definition mergeProductResults ::
  "(string \<rightharpoonup> ProductFrequency) \<Rightarrow> (string \<rightharpoonup> ProductFrequency) \<Rightarrow> string list
     \<Rightarrow> (string \<rightharpoonup> ProductFrequency)" where
  "mergeProductResults local global ks =
     fold (\<lambda>k g. case local k of None \<Rightarrow> g | Some v \<Rightarrow> g(k \<mapsto> mergeProductEntry v (g k)))
       ks global"

definition mergeMonthlyEntry :: "float64 \<Rightarrow> float64 option \<Rightarrow> float64" where
  "mergeMonthlyEntry v gk = f_add (case gk of None \<Rightarrow> Fin 0 | Some x \<Rightarrow> x) v"

definition mergeMonthlyResults ::
  "(string \<rightharpoonup> float64) \<Rightarrow> (string \<rightharpoonup> float64) \<Rightarrow> string list \<Rightarrow> (string \<rightharpoonup> float64)" where
  "mergeMonthlyResults local global ks =
     fold (\<lambda>k g. case local k of None \<Rightarrow> g | Some v \<Rightarrow> g(k \<mapsto> mergeMonthlyEntry v (g k)))
       ks global"

definition mergeRegionEntry :: "RegionRevenue \<Rightarrow> RegionRevenue option \<Rightarrow> RegionRevenue" where
  "mergeRegionEntry v gk =
     (let e = (case gk of
                 None \<Rightarrow> \<lparr>rr_Region = rr_Region v, rr_Revenue = Fin 0, rr_ItemsSold = 0\<rparr>
               | Some e \<Rightarrow> e)
      in e\<lparr>rr_Revenue := f_add (rr_Revenue e) (rr_Revenue v),
           rr_ItemsSold := rr_ItemsSold e + rr_ItemsSold v\<rparr>)"

definition mergeRegionResults ::
  "(string \<rightharpoonup> RegionRevenue) \<Rightarrow> (string \<rightharpoonup> RegionRevenue) \<Rightarrow> string list
     \<Rightarrow> (string \<rightharpoonup> RegionRevenue)" where
  "mergeRegionResults local global ks =
     fold (\<lambda>k g. case local k of None \<Rightarrow> g | Some v \<Rightarrow> g(k \<mapsto> mergeRegionEntry v (g k)))
       ks global"

text \<open>The four merge calls that \<open>processBatch\<close> makes under the mutex.\<close>

definition mergeGroups :: "groups \<Rightarrow> groups \<Rightarrow> orders \<Rightarrow> groups" where
  "mergeGroups local global os =
     \<lparr>countryGroups = mergeResults (countryGroups local) (countryGroups global) (o_country os),
      productGroups =
        mergeProductResults (productGroups local) (productGroups global) (o_product os),
      monthlyGroups =
        mergeMonthlyResults (monthlyGroups local) (monthlyGroups global) (o_monthly os),
      regionGroups =
        mergeRegionResults (regionGroups local) (regionGroups global) (o_region os)\<rparr>"

subsection \<open>Sorting the maps into slices\<close>

text \<open>
  \<open>slices.SortFunc\<close> belongs to the Go standard library. It runs a pattern-defeating
  quicksort that sorts a slice of at most 12 elements by insertion sort: each element in
  turn moves to the left while the comparison puts it strictly before its left neighbour.
  The model is this insertion sort. \<open>sink\<close> works on the part already sorted, held in
  reverse (the left neighbour first).
\<close>

fun sink :: "('a \<Rightarrow> 'a \<Rightarrow> int) \<Rightarrow> 'a \<Rightarrow> 'a list \<Rightarrow> 'a list" where
  "sink cmp x [] = [x]"
| "sink cmp x (y # rs) = (if cmp x y < 0 then y # sink cmp x rs else x # y # rs)"

definition SortFunc :: "('a \<Rightarrow> 'a \<Rightarrow> int) \<Rightarrow> 'a list \<Rightarrow> 'a list" where
  "SortFunc cmp xs = rev (fold (sink cmp) xs [])"

definition cmpCountryRevenue :: "CountryRevenue \<Rightarrow> CountryRevenue \<Rightarrow> int" where
  "cmpCountryRevenue a b =
     (if f_gt (cr_TotalRevenue a) (cr_TotalRevenue b) then - 1
      else if f_lt (cr_TotalRevenue a) (cr_TotalRevenue b) then 1 else 0)"

definition cmpProductFrequency :: "ProductFrequency \<Rightarrow> ProductFrequency \<Rightarrow> int" where
  "cmpProductFrequency a b =
     (if pf_Frequency a > pf_Frequency b then - 1
      else if pf_Frequency a < pf_Frequency b then 1 else 0)"

definition cmpMonthlyData :: "MonthlyData \<Rightarrow> MonthlyData \<Rightarrow> int" where
  "cmpMonthlyData a b =
     (if f_gt (md_Volume a) (md_Volume b) then - 1
      else if f_lt (md_Volume a) (md_Volume b) then 1 else 0)"

definition cmpRegionRevenue :: "RegionRevenue \<Rightarrow> RegionRevenue \<Rightarrow> int" where
  "cmpRegionRevenue a b =
     (if f_gt (rr_Revenue a) (rr_Revenue b) then - 1
      else if f_lt (rr_Revenue a) (rr_Revenue b) then 1 else 0)"

definition sortCountryRevenue ::
  "(string \<rightharpoonup> CountryRevenue) \<Rightarrow> string list \<Rightarrow> CountryRevenue list" where
  "sortCountryRevenue groups ks = SortFunc cmpCountryRevenue (List.map_filter groups ks)"

definition sortTopProducts ::
  "(string \<rightharpoonup> ProductFrequency) \<Rightarrow> string list \<Rightarrow> ProductFrequency list" where
  "sortTopProducts groups ks = SortFunc cmpProductFrequency (List.map_filter groups ks)"

definition sortMonthlySales :: "(string \<rightharpoonup> float64) \<Rightarrow> string list \<Rightarrow> MonthlyData list" where
  "sortMonthlySales groups ks =
     SortFunc cmpMonthlyData
       (List.map_filter
          (\<lambda>month. map_option (\<lambda>volume. \<lparr>md_Month = month, md_Volume = volume\<rparr>) (groups month))
          ks)"

definition sortTopRegions ::
  "(string \<rightharpoonup> RegionRevenue) \<Rightarrow> string list \<Rightarrow> RegionRevenue list" where
  "sortTopRegions groups ks = SortFunc cmpRegionRevenue (List.map_filter groups ks)"

subsection \<open>Computing a snapshot from transactions in memory\<close>

definition computeAnalytics :: "Transaction list \<Rightarrow> orders \<Rightarrow> instant \<Rightarrow> PrecomputedData" where
  "computeAnalytics data os now =
     (let g = fold aggregateTransaction data newGroups
      in \<lparr>pd_CountryRevenue = sortCountryRevenue (countryGroups g) (o_country os),
          pd_TopProducts = sortTopProducts (productGroups g) (o_product os),
          pd_MonthlySales = sortMonthlySales (monthlyGroups g) (o_monthly os),
          pd_TopRegions = sortTopRegions (regionGroups g) (o_region os),
          pd_LastModified = now,
          pd_RecordCount = int (length data)\<rparr>)"

text \<open>
  \<open>SetData\<close> reads the clock twice, once inside \<open>computeAnalytics\<close> and once itself; the
  second reading is the one that stays.
\<close>

definition SetData ::
  "Analytics \<Rightarrow> Transaction list \<Rightarrow> orders \<Rightarrow> instant \<Rightarrow> instant \<Rightarrow> Analytics" where
  "SetData a data os now1 now2 =
     a\<lparr>precomputed := (computeAnalytics data os now1)
          \<lparr>pd_RecordCount := int (length data), pd_LastModified := now2\<rparr>\<rparr>"

subsection \<open>Parsing a row\<close>

datatype error =
    InsufficientColumns
  | TimeParseError
  | NumError
  | OpenFile
  | EmptyFile
  | ScanError
  | NoValidRecordsFound
  | ContextCanceled
  | ProcessCSV error
  | CacheOpenError
  | CacheDecodeError
  | CacheCreateError
  | CacheEncodeError

text \<open>
  The functions of the Go standard library that \<open>parseTransactionFast\<close> calls are
  arguments of the model: \<open>strings.TrimSpace\<close>, \<open>time.Parse\<close> with the layout
  \<open>"2006-01-02"\<close>, \<open>strconv.ParseFloat\<close> at 64 bits and \<open>strconv.Atoi\<close>. A conversion that
  returns an error is \<open>None\<close>.
\<close>

record stdlib =
  TrimSpace :: "string \<Rightarrow> string"
  time_Parse :: "string \<Rightarrow> date option"
  ParseFloat :: "string \<Rightarrow> float64 option"
  Atoi :: "string \<Rightarrow> int option"

text \<open>\<open>strings.Split(line, ",")\<close>: the empty line gives one empty field.\<close>

fun strings_Split :: "string \<Rightarrow> char \<Rightarrow> string list" where
  "strings_Split [] sep = [[]]"
| "strings_Split (c # cs) sep =
     (if c = sep then [] # strings_Split cs sep
      else (case strings_Split cs sep of
              [] \<Rightarrow> [[c]]
            | w # ws \<Rightarrow> (c # w) # ws))"

definition parseTransactionFast :: "stdlib \<Rightarrow> string list \<Rightarrow> error + Transaction" where
  "parseTransactionFast lib record =
     (if length record < 13 then Inl InsufficientColumns
      else case time_Parse lib (TrimSpace lib (record ! 1)) of
        None \<Rightarrow> Inl TimeParseError
      | Some transactionDate \<Rightarrow>
      (case ParseFloat lib (TrimSpace lib (record ! 8)) of
        None \<Rightarrow> Inl NumError
      | Some price \<Rightarrow>
      (case Atoi lib (TrimSpace lib (record ! 9)) of
        None \<Rightarrow> Inl NumError
      | Some quantity \<Rightarrow>
      (case ParseFloat lib (TrimSpace lib (record ! 10)) of
        None \<Rightarrow> Inl NumError
      | Some totalPrice \<Rightarrow>
      (case Atoi lib (TrimSpace lib (record ! 11)) of
        None \<Rightarrow> Inl NumError
      | Some stock \<Rightarrow>
          Inr (zeroTransaction
                \<lparr>tx_Date := transactionDate,
                 tx_Country := TrimSpace lib (record ! 3),
                 tx_Region := TrimSpace lib (record ! 4),
                 tx_ProductName := TrimSpace lib (record ! 6),
                 tx_Category := TrimSpace lib (record ! 7),
                 tx_Price := price,
                 tx_Quantity := quantity,
                 tx_TotalPrice := totalPrice,
                 tx_Stock := stock\<rparr>))))))"

subsection \<open>Processing a batch of lines\<close>

record processedTx =
  ptx_tx :: Transaction
  ptx_valid :: bool

text \<open>The body of one parse task: what it sends to the channel for its line.\<close>

definition parseTask :: "stdlib \<Rightarrow> string \<Rightarrow> processedTx" where
  "parseTask lib line =
     (case parseTransactionFast lib (strings_Split line (CHR '','')) of
        Inl err \<Rightarrow> \<lparr>ptx_tx = zeroTransaction, ptx_valid = False\<rparr>
      | Inr tx \<Rightarrow> \<lparr>ptx_tx = tx, ptx_valid = True\<rparr>)"

record accum =
  acc_groups :: groups
  acc_recordCount :: int

text \<open>
  The context is modelled by its state during the call, cancelled or not. The parse tasks
  run concurrently and the channel delivers their results in the order in which they
  finish; the model delivers them in the order of the lines.
\<close>

definition processBatch ::
  "stdlib \<Rightarrow> bool \<Rightarrow> string list \<Rightarrow> orders \<Rightarrow> accum \<Rightarrow> error + accum" where
  "processBatch lib ctx_done batch os acc =
     (if ctx_done \<and> batch \<noteq> [] then Inl ContextCanceled
      else
        let txChan = map (parseTask lib) batch;
            (local, localCount) =
              fold (\<lambda>ptx (l, c).
                      if ptx_valid ptx then (aggregateTransaction (ptx_tx ptx) l, c + 1)
                      else (l, c))
                txChan (newGroups, 0)
        in Inr \<lparr>acc_groups = mergeGroups local (acc_groups acc) os,
                acc_recordCount = acc_recordCount acc + localCount\<rparr>)"

subsection \<open>Streaming a file\<close>

text \<open>
  What \<open>os.Open\<close> and the \<open>bufio.Scanner\<close> deliver for a path: the lines that \<open>Scan\<close>
  returns, and whether the scanner stopped with an error (\<open>scanner.Err()\<close>).
\<close>

record scanned =
  sc_lines :: "string list"
  sc_err :: bool

text \<open>
  The choices of the runtime during one load: the orders of the merge loops of each
  batch, numbered from 0, the orders of the four sorting loops, and the clock.
\<close>

record runtime =
  rt_merge :: "nat \<Rightarrow> orders"
  rt_sort :: orders
  rt_now :: instant

text \<open>
  The scanning loop: the lines still to come, the batch collected so far, the number of
  batches processed and the global maps with the record count.
\<close>

fun scanLoop ::
  "stdlib \<Rightarrow> bool \<Rightarrow> (nat \<Rightarrow> orders) \<Rightarrow> string list \<Rightarrow> string list \<Rightarrow> nat \<Rightarrow> accum
     \<Rightarrow> error + (string list \<times> nat \<times> accum)" where
  "scanLoop lib ctx_done ms [] batch i acc = Inr (batch, i, acc)"
| "scanLoop lib ctx_done ms (line # rest) batch i acc =
     (if ctx_done then Inl ContextCanceled
      else if length (batch @ [line]) \<ge> batchSize
      then (case processBatch lib ctx_done (batch @ [line]) (ms i) acc of
              Inl err \<Rightarrow> Inl err
            | Inr acc' \<Rightarrow> scanLoop lib ctx_done ms rest [] (Suc i) acc')
      else scanLoop lib ctx_done ms rest (batch @ [line]) i acc)"

definition streamProcessCSV ::
  "stdlib \<Rightarrow> scanned option \<Rightarrow> bool \<Rightarrow> runtime \<Rightarrow> Analytics \<Rightarrow> error option \<times> Analytics" where
  "streamProcessCSV lib file ctx_done rt a =
     (case file of
        None \<Rightarrow> (Some OpenFile, a)
      | Some sc \<Rightarrow>
     (case sc_lines sc of
        [] \<Rightarrow> (Some EmptyFile, a)
      | header # rest \<Rightarrow>
     (case scanLoop lib ctx_done (rt_merge rt) rest [] 0
             \<lparr>acc_groups = newGroups, acc_recordCount = 0\<rparr> of
        Inl err \<Rightarrow> (Some err, a)
      | Inr (batch, i, acc) \<Rightarrow>
     (case (if batch \<noteq> [] then processBatch lib ctx_done batch (rt_merge rt i) acc
            else Inr acc) of
        Inl err \<Rightarrow> (Some err, a)
      | Inr acc' \<Rightarrow>
          if sc_err sc then (Some ScanError, a)
          else if acc_recordCount acc' = 0 then (Some NoValidRecordsFound, a)
          else (None,
                a\<lparr>precomputed :=
                    \<lparr>pd_CountryRevenue =
                       sortCountryRevenue (countryGroups (acc_groups acc'))
                         (o_country (rt_sort rt)),
                     pd_TopProducts =
                       sortTopProducts (productGroups (acc_groups acc')) (o_product (rt_sort rt)),
                     pd_MonthlySales =
                       sortMonthlySales (monthlyGroups (acc_groups acc'))
                         (o_monthly (rt_sort rt)),
                     pd_TopRegions =
                       sortTopRegions (regionGroups (acc_groups acc')) (o_region (rt_sort rt)),
                     pd_LastModified = rt_now rt,
                     pd_RecordCount = acc_recordCount acc'\<rparr>,
                  recordsProcessed := acc_recordCount acc'\<rparr>)))))"

subsection \<open>The snapshot cache and the load\<close>

text \<open>
  The file system as the engine sees it: what opening and scanning a path gives, the
  modification time that \<open>os.Stat\<close> reports, what a path holds for the gob decoder, and
  how an attempt to write a cache file ends.
\<close>

datatype gob_file = NoSuchFile | Undecodable | Encoded PrecomputedData

datatype save_outcome = SaveSucceeds | CreateFails | EncodeFails

record filesystem =
  fs_open :: "string \<Rightarrow> scanned option"
  fs_modTime :: "string \<Rightarrow> instant option"
  fs_gob :: "string \<Rightarrow> gob_file"
  fs_save :: save_outcome

definition cacheVersion :: string where
  "cacheVersion = ''v1''"

definition cacheDir :: string where
  "cacheDir = ''.cache''"

definition getCacheFilename :: "string \<Rightarrow> string" where
  "getCacheFilename path =
     cacheDir @ ''/'' @ map (\<lambda>c. if c = CHR ''/'' then CHR ''_'' else c) path
       @ ''_'' @ cacheVersion @ ''.gob''"

definition loadFromCache :: "filesystem \<Rightarrow> string \<Rightarrow> error + PrecomputedData" where
  "loadFromCache fs path =
     (case fs_gob fs (getCacheFilename path) of
        NoSuchFile \<Rightarrow> Inl CacheOpenError
      | Undecodable \<Rightarrow> Inl CacheDecodeError
      | Encoded data \<Rightarrow> Inr data)"

definition saveToCache :: "filesystem \<Rightarrow> Analytics \<Rightarrow> string \<Rightarrow> error option \<times> filesystem" where
  "saveToCache fs a path =
     (case fs_save fs of
        CreateFails \<Rightarrow> (Some CacheCreateError, fs)
      | EncodeFails \<Rightarrow>
          (Some CacheEncodeError, fs\<lparr>fs_gob := (fs_gob fs)(getCacheFilename path := Undecodable)\<rparr>)
      | SaveSucceeds \<Rightarrow>
          (None, fs\<lparr>fs_gob := (fs_gob fs)(getCacheFilename path := Encoded (precomputed a))\<rparr>))"

definition logInfo :: "log_entry \<Rightarrow> Analytics \<Rightarrow> Analytics" where
  "logInfo entry a = a\<lparr>logger := logger a @ [entry]\<rparr>"

text \<open>The part of \<open>LoadFromCSV\<close> after the cache check.\<close>

definition recompute ::
  "stdlib \<Rightarrow> filesystem \<Rightarrow> bool \<Rightarrow> runtime \<Rightarrow> Analytics \<Rightarrow> string
     \<Rightarrow> error option \<times> Analytics \<times> filesystem" where
  "recompute lib fs ctx_done rt a filename =
     (case streamProcessCSV lib (fs_open fs filename) ctx_done rt
             (logInfo (ProcessingCSVFile filename) a) of
        (Some err, a') \<Rightarrow> (Some (ProcessCSV err), a', fs)
      | (None, a') \<Rightarrow>
          (case saveToCache fs a' filename of
             (Some err, fs') \<Rightarrow>
               (None,
                logInfo (CSVProcessingComplete (recordsProcessed a'))
                  (logInfo FailedToSaveCache a'),
                fs')
           | (None, fs') \<Rightarrow>
               (None, logInfo (CSVProcessingComplete (recordsProcessed a')) a', fs')))"

definition LoadFromCSV ::
  "stdlib \<Rightarrow> filesystem \<Rightarrow> bool \<Rightarrow> runtime \<Rightarrow> Analytics \<Rightarrow> string
     \<Rightarrow> error option \<times> Analytics \<times> filesystem" where
  "LoadFromCSV lib fs ctx_done rt a filename =
     (let a = a\<lparr>csvPath := filename\<rparr>
      in case loadFromCache fs filename of
           Inr cached \<Rightarrow>
             (case fs_modTime fs filename of
                Some modTime \<Rightarrow>
                  if modTime < pd_LastModified cached
                  then (None,
                        logInfo (LoadedFromCache (pd_RecordCount cached))
                          (a\<lparr>precomputed := cached\<rparr>),
                        fs)
                  else recompute lib fs ctx_done rt a filename
              | None \<Rightarrow> recompute lib fs ctx_done rt a filename)
         | Inl err \<Rightarrow> recompute lib fs ctx_done rt a filename)"

subsection \<open>The merge loops, key by key\<close>

text \<open>
  What a merge loop leaves at each key, when its body stores \<open>F v (global k)\<close> at every
  key \<open>k\<close> of the local map, \<open>v\<close> being the local entry.
\<close>

definition merge_by ::
  "('v \<Rightarrow> 'v option \<Rightarrow> 'v) \<Rightarrow> ('k \<rightharpoonup> 'v) \<Rightarrow> ('k \<rightharpoonup> 'v) \<Rightarrow> ('k \<rightharpoonup> 'v)" where
  "merge_by F l G = (\<lambda>k. case l k of None \<Rightarrow> G k | Some v \<Rightarrow> Some (F v (G k)))"

section \<open>Example inputs\<close>

definition laptop50 :: Transaction where
  "laptop50 = zeroTransaction
     \<lparr>tx_Date := \<lparr>d_year = 2023, d_month = 1, d_day = 15\<rparr>, tx_Country := ''USA'',
      tx_Region := ''California'', tx_ProductName := ''Laptop'',
      tx_Category := ''Electronics'', tx_Price := Fin 1000, tx_Quantity := 1,
      tx_TotalPrice := Fin 1000, tx_Stock := 50\<rparr>"

definition laptop60 :: Transaction where
  "laptop60 = laptop50\<lparr>tx_Stock := 60\<rparr>"

definition mouse :: Transaction where
  "mouse = zeroTransaction
     \<lparr>tx_Date := \<lparr>d_year = 2023, d_month = 2, d_day = 1\<rparr>, tx_Country := ''Canada'',
      tx_Region := ''Ontario'', tx_ProductName := ''Mouse'',
      tx_Category := ''Electronics'', tx_Price := Fin 30, tx_Quantity := 2,
      tx_TotalPrice := Fin 60, tx_Stock := 100\<rparr>"

definition laptop_orders :: orders where
  "laptop_orders =
     \<lparr>o_country = [''USA|Laptop|Electronics''], o_product = [''Laptop''],
      o_monthly = [''2023-01''], o_region = [''California'']\<rparr>"

definition laptop_mouse_orders :: orders where
  "laptop_mouse_orders =
     \<lparr>o_country = [''USA|Laptop|Electronics'', ''Canada|Mouse|Electronics''],
      o_product = [''Laptop'', ''Mouse''],
      o_monthly = [''2023-01'', ''2023-02''],
      o_region = [''California'', ''Ontario'']\<rparr>"

definition mouse_laptop_orders :: orders where
  "mouse_laptop_orders =
     \<lparr>o_country = [''Canada|Mouse|Electronics'', ''USA|Laptop|Electronics''],
      o_product = [''Mouse'', ''Laptop''],
      o_monthly = [''2023-02'', ''2023-01''],
      o_region = [''Ontario'', ''California'']\<rparr>"

definition three_products :: Analytics where
  "three_products = NewAnalytics\<lparr>precomputed := (precomputed NewAnalytics)\<lparr>
     pd_TopProducts :=
       [\<lparr>pf_ProductName = ''Laptop'', pf_Category = ''Electronics'', pf_Frequency = 3,
          pf_StockQuantity = 50\<rparr>,
        \<lparr>pf_ProductName = ''Mouse'', pf_Category = ''Electronics'', pf_Frequency = 2,
          pf_StockQuantity = 100\<rparr>,
        \<lparr>pf_ProductName = ''Desk'', pf_Category = ''Furniture'', pf_Frequency = 1,
          pf_StockQuantity = 7\<rparr>],
     pd_TopRegions :=
       [\<lparr>rr_Region = ''California'', rr_Revenue = Fin 1030, rr_ItemsSold = 2\<rparr>,
        \<lparr>rr_Region = ''Texas'', rr_Revenue = Fin 200, rr_ItemsSold = 2\<rparr>]\<rparr>\<rparr>"

definition nan_laptop :: Transaction where
  "nan_laptop = laptop50\<lparr>tx_TotalPrice := NaN\<rparr>"

definition tv_a :: Transaction where
  "tv_a = zeroTransaction
     \<lparr>tx_Date := \<lparr>d_year = 2023, d_month = 3, d_day = 1\<rparr>, tx_Country := ''US'',
      tx_Region := ''Texas'', tx_ProductName := ''TV|4K'', tx_Category := ''Video'',
      tx_TotalPrice := Fin 10\<rparr>"

definition tv_b :: Transaction where
  "tv_b = zeroTransaction
     \<lparr>tx_Date := \<lparr>d_year = 2023, d_month = 3, d_day = 1\<rparr>, tx_Country := ''US'',
      tx_Region := ''Texas'', tx_ProductName := ''TV'', tx_Category := ''4K|Video'',
      tx_TotalPrice := Fin 5\<rparr>"

definition tv_orders :: orders where
  "tv_orders =
     \<lparr>o_country = [''US|TV|4K|Video''], o_product = [''TV|4K'', ''TV''],
      o_monthly = [''2023-03''], o_region = [''Texas'']\<rparr>"

text \<open>
  The library functions on the fields of the example rows: \<open>TrimSpace\<close> strips blanks,
  and the conversions know the strings that the examples use and reject every other one.
\<close>

definition example_lib :: stdlib where
  "example_lib =
     \<lparr>TrimSpace = (\<lambda>s. rev (dropWhile (\<lambda>c. c = CHR '' '')
                          (rev (dropWhile (\<lambda>c. c = CHR '' '') s)))),
      time_Parse = (\<lambda>s. if s = ''2023-01-15''
                         then Some \<lparr>d_year = 2023, d_month = 1, d_day = 15\<rparr> else None),
      ParseFloat = (\<lambda>s. if s = ''1000'' then Some (Fin 1000)
                         else if s = ''NaN'' then Some NaN else None),
      Atoi = (\<lambda>s. if s = ''1'' then Some 1 else if s = ''50'' then Some 50 else None)\<rparr>"

definition header_row :: string where
  "header_row = ''id,date,user,country,region,pid,product,category,price,qty,total,stock,added''"

definition laptop_row :: string where
  "laptop_row = ''T001,2023-01-15,U001,USA, California,P001,Laptop,Electronics,1000,1,1000,50,2023-01-01''"

definition bad_price_row :: string where
  "bad_price_row = ''T002,2023-01-15,U001,USA,California,P001,Laptop,Electronics,invalid,1,1000,50,2023-01-01''"

definition old_snapshot :: PrecomputedData where
  "old_snapshot = (precomputed three_products)\<lparr>pd_LastModified := 10, pd_RecordCount := 6\<rparr>"

definition example_rt :: runtime where
  "example_rt = \<lparr>rt_merge = (\<lambda>i. laptop_orders), rt_sort = laptop_orders, rt_now = 20\<rparr>"

text \<open>A file system with one source file and, possibly, a cache file for it.\<close>

definition example_fs :: "string list \<Rightarrow> instant \<Rightarrow> gob_file \<Rightarrow> filesystem" where
  "example_fs lines modTime cache =
     \<lparr>fs_open = (\<lambda>p. if p = ''data.csv'' then Some \<lparr>sc_lines = lines, sc_err = False\<rparr>
                       else None),
      fs_modTime = (\<lambda>p. if p = ''data.csv'' then Some modTime else None),
      fs_gob = (\<lambda>p. if p = ''.cache/data.csv_v1.gob'' then cache else NoSuchFile),
      fs_save = SaveSucceeds\<rparr>"

section \<open>Unfolding the definitions on examples\<close>

lemmas example_defs = laptop50_def laptop60_def mouse_def zeroTransaction_def zeroDate_def
  laptop_orders_def laptop_mouse_orders_def mouse_laptop_orders_def nan_laptop_def tv_a_def
  tv_b_def tv_orders_def

lemmas aggregate_defs = aggregateTransaction_def aggregateCountry_def aggregateProduct_def
  aggregateMonthly_def aggregateRegion_def countryKey_def Format_2006_01_def appendInt_def
  digit_def newGroups_def

lemmas merge_defs = mergeGroups_def mergeResults_def mergeProductResults_def
  mergeMonthlyResults_def mergeRegionResults_def mergeCountryEntry_def mergeProductEntry_def
  mergeMonthlyEntry_def mergeRegionEntry_def

lemmas parse_defs = example_lib_def header_row_def laptop_row_def bad_price_row_def

lemmas load_defs = LoadFromCSV_def recompute_def loadFromCache_def saveToCache_def
  getCacheFilename_def cacheDir_def cacheVersion_def logInfo_def streamProcessCSV_def
  processBatch_def parseTask_def parseTransactionFast_def batchSize_def
  example_fs_def example_rt_def old_snapshot_def three_products_def NewAnalytics_def

lemmas recompute_defs = recompute_def loadFromCache_def saveToCache_def
  getCacheFilename_def cacheDir_def cacheVersion_def logInfo_def streamProcessCSV_def
  processBatch_def parseTask_def parseTransactionFast_def batchSize_def
  example_fs_def example_rt_def old_snapshot_def three_products_def NewAnalytics_def

section \<open>Merging is aggregation continued\<close>



lemma fold_merge_distinct:
  "distinct ks \<Longrightarrow>
   fold (\<lambda>k g. case l k of None \<Rightarrow> g | Some v \<Rightarrow> g(k \<mapsto> F v (g k))) ks G
     = (\<lambda>k. if k \<in> set ks then merge_by F l G k else G k)"
proof (induction ks arbitrary: G)
  case Nil
  then show ?case by simp
next
  case (Cons k ks)
  then show ?case
    by (auto simp: merge_by_def fun_eq_iff split: option.splits)
qed

lemma fold_merge_range:
  assumes "range_order l ks"
  shows "fold (\<lambda>k g. case l k of None \<Rightarrow> g | Some v \<Rightarrow> g(k \<mapsto> F v (g k))) ks G = merge_by F l G"
proof -
  have "distinct ks" and ks: "set ks = dom l"
    using assms by (simp_all add: range_order_def)
  have "k \<notin> set ks \<Longrightarrow> merge_by F l G k = G k" for k
    using ks by (auto simp: merge_by_def split: option.splits)
  with fold_merge_distinct [OF \<open>distinct ks\<close>, where l = l and F = F and G = G] show ?thesis
    by (auto simp: fun_eq_iff)
qed

lemma merge_by_empty: "merge_by F Map.empty G = G"
  by (simp add: merge_by_def)


lemma merge_commutes_product:
  "merge_by mergeProductEntry (aggregateProduct t L) G
     = aggregateProduct t (merge_by mergeProductEntry L G)"
  by (auto simp: merge_by_def aggregateProduct_def mergeProductEntry_def Let_def fun_eq_iff
        split: option.splits)



lemma merge_of_fold:
  assumes "\<And>t L. merge_by F (agg t L) G = agg t (merge_by F L G)"
  shows "merge_by F (fold agg ts Map.empty) G = fold agg ts G"
proof (induction ts rule: rev_induct)
  case Nil
  show ?case by (simp add: merge_by_empty)
next
  case (snoc t ts)
  then show ?case by (simp add: assms)
qed

lemma fold_aggregateTransaction:
  "fold aggregateTransaction ts g =
     \<lparr>countryGroups = fold aggregateCountry ts (countryGroups g),
      productGroups = fold aggregateProduct ts (productGroups g),
      monthlyGroups = fold aggregateMonthly ts (monthlyGroups g),
      regionGroups = fold aggregateRegion ts (regionGroups g)\<rparr>"
  by (induction ts arbitrary: g) (simp_all add: aggregateTransaction_def)

lemma countryGroups_newGroups [simp]: "countryGroups newGroups = Map.empty"
  and productGroups_newGroups [simp]: "productGroups newGroups = Map.empty"
  and monthlyGroups_newGroups [simp]: "monthlyGroups newGroups = Map.empty"
  and regionGroups_newGroups [simp]: "regionGroups newGroups = Map.empty"
  by (simp_all add: newGroups_def)


lemma mergeProductResults_of_fold:
  assumes "range_order (fold aggregateProduct ts Map.empty) ks"
  shows "mergeProductResults (fold aggregateProduct ts Map.empty) g ks = fold aggregateProduct ts g"
  unfolding mergeProductResults_def fold_merge_range [OF assms]
  by (rule merge_of_fold) (rule merge_commutes_product)




section \<open>Additivity of the merge\<close>




section \<open>The product entry\<close>

lemma aggregateProduct_at:
  "aggregateProduct t G p =
     (if tx_ProductName t = p
      then Some (case G p of
                   None \<Rightarrow> \<lparr>pf_ProductName = p, pf_Category = tx_Category t,
                             pf_Frequency = 1, pf_StockQuantity = tx_Stock t\<rparr>
                 | Some e \<Rightarrow> e\<lparr>pf_Frequency := pf_Frequency e + 1\<rparr>)
      else G p)"
  by (auto simp: aggregateProduct_def Let_def split: option.splits)

lemma fold_aggregateProduct_at:
  "fold aggregateProduct ts G p =
     (case G p of
        Some e \<Rightarrow>
          Some (e\<lparr>pf_Frequency :=
                    pf_Frequency e + int (length (filter (\<lambda>t. tx_ProductName t = p) ts))\<rparr>)
      | None \<Rightarrow>
          (case List.find (\<lambda>t. tx_ProductName t = p) ts of
             None \<Rightarrow> None
           | Some t \<Rightarrow>
               Some \<lparr>pf_ProductName = p, pf_Category = tx_Category t,
                     pf_Frequency = int (length (filter (\<lambda>t. tx_ProductName t = p) ts)),
                     pf_StockQuantity = tx_Stock t\<rparr>))"
proof (induction ts arbitrary: G)
  case Nil
  show ?case by (simp split: option.splits)
next
  case (Cons t ts)
  have "fold aggregateProduct (t # ts) G p = fold aggregateProduct ts (aggregateProduct t G) p"
    by simp
  also note Cons.IH [of "aggregateProduct t G"]
  finally have step: "fold aggregateProduct (t # ts) G p =
     (case aggregateProduct t G p of
        Some e \<Rightarrow>
          Some (e\<lparr>pf_Frequency :=
                    pf_Frequency e + int (length (filter (\<lambda>t. tx_ProductName t = p) ts))\<rparr>)
      | None \<Rightarrow>
          (case List.find (\<lambda>t. tx_ProductName t = p) ts of
             None \<Rightarrow> None
           | Some t \<Rightarrow>
               Some \<lparr>pf_ProductName = p, pf_Category = tx_Category t,
                     pf_Frequency = int (length (filter (\<lambda>t. tx_ProductName t = p) ts)),
                     pf_StockQuantity = tx_Stock t\<rparr>))" .
  show ?case
    unfolding step by (simp add: aggregateProduct_at split: option.splits)
qed

lemma productGroups_fold:
  "productGroups (fold aggregateTransaction ts g) = fold aggregateProduct ts (productGroups g)"
  by (simp add: fold_aggregateTransaction [of ts g])

text \<open>
  C4, as amended. For every sequence of transactions aggregated into the product map,
  in one pass or batch by batch with the merges, the entry of a product name carries the
  stock value and the category of the first transaction seen for that name (not the last
  one and not a sum), and its frequency is the number of transactions with that name.
\<close>

theorem product_entry_first_seen:
  assumes "List.find (\<lambda>t. tx_ProductName t = p) (xs @ ys) = Some t"
      and "range_order (productGroups (fold aggregateTransaction xs newGroups)) k1"
      and "range_order (productGroups (fold aggregateTransaction ys newGroups)) k2"
  shows "productGroups (fold aggregateTransaction (xs @ ys) newGroups) p =
           Some \<lparr>pf_ProductName = p, pf_Category = tx_Category t,
                 pf_Frequency = int (length (filter (\<lambda>t. tx_ProductName t = p) (xs @ ys))),
                 pf_StockQuantity = tx_Stock t\<rparr>
       \<and> mergeProductResults (productGroups (fold aggregateTransaction ys newGroups))
           (mergeProductResults (productGroups (fold aggregateTransaction xs newGroups))
              (productGroups newGroups) k1) k2
         = productGroups (fold aggregateTransaction (xs @ ys) newGroups)"
proof -
  have "fold aggregateProduct (xs @ ys) Map.empty p =
           Some \<lparr>pf_ProductName = p, pf_Category = tx_Category t,
                 pf_Frequency = int (length (filter (\<lambda>t. tx_ProductName t = p) (xs @ ys))),
                 pf_StockQuantity = tx_Stock t\<rparr>"
    unfolding fold_aggregateProduct_at [of "xs @ ys"] using assms(1) by simp
  moreover have "mergeProductResults (fold aggregateProduct ys Map.empty)
           (mergeProductResults (fold aggregateProduct xs Map.empty) Map.empty k1) k2
         = fold aggregateProduct (xs @ ys) Map.empty"
    using assms(2,3) by (simp add: productGroups_fold mergeProductResults_of_fold)
  ultimately show ?thesis
    by (simp add: productGroups_fold)
qed

theorem product_entry_first_seen_witness:
  "List.find (\<lambda>t. tx_ProductName t = ''Laptop'') ([laptop50] @ [laptop60, mouse]) = Some laptop50
   \<and> range_order (productGroups (fold aggregateTransaction [laptop50] newGroups)) [''Laptop'']
   \<and> range_order (productGroups (fold aggregateTransaction [laptop60, mouse] newGroups))
        [''Mouse'', ''Laptop'']
   \<and> mergeProductResults (productGroups (fold aggregateTransaction [laptop60, mouse] newGroups))
        (mergeProductResults (productGroups (fold aggregateTransaction [laptop50] newGroups))
           (productGroups newGroups) [''Laptop'']) [''Mouse'', ''Laptop''] ''Laptop''
      = Some \<lparr>pf_ProductName = ''Laptop'', pf_Category = ''Electronics'', pf_Frequency = 2,
              pf_StockQuantity = 50\<rparr>"
proof -
  have f: "List.find (\<lambda>t. tx_ProductName t = ''Laptop'') ([laptop50] @ [laptop60, mouse])
             = Some laptop50"
    by (simp add: example_defs)
  have r1: "range_order (productGroups (fold aggregateTransaction [laptop50] newGroups))
              [''Laptop'']"
    by (simp add: range_order_def example_defs aggregate_defs)
  have r2: "range_order (productGroups (fold aggregateTransaction [laptop60, mouse] newGroups))
              [''Mouse'', ''Laptop'']"
    by (auto simp add: range_order_def example_defs aggregate_defs)
  show ?thesis
    using product_entry_first_seen [OF f r1 r2] f r1 r2
    by (simp add: example_defs)
qed

text \<open>
  C4, as stated, fails: after a sale of the product with stock 50 and a later one with
  stock 60, the published entry holds 50, while the last seen value is 60.
\<close>

theorem stock_last_seen_counterexample:
  "map pf_StockQuantity
     (pd_TopProducts (precomputed (SetData NewAnalytics [laptop50, laptop60] laptop_orders 0 0)))
     = [50]
   \<and> tx_Stock (last (filter (\<lambda>t. tx_ProductName t = ''Laptop'') [laptop50, laptop60])) = 60"
  by (simp add: SetData_def computeAnalytics_def sortTopProducts_def SortFunc_def
      List.map_filter_def example_defs aggregate_defs)

section \<open>The library sort\<close>

lemma mset_sink: "mset (sink cmp x rs) = add_mset x (mset rs)"
  by (induction rs) auto

lemma mset_fold_sink: "mset (fold (sink cmp) xs rs) = mset xs + mset rs"
  by (induction xs arbitrary: rs) (auto simp: mset_sink)

lemma mset_SortFunc: "mset (SortFunc cmp xs) = mset xs"
  by (simp add: SortFunc_def mset_fold_sink)

lemma set_sink: "set (sink cmp x rs) = insert x (set rs)"
  by (induction rs) auto

lemma sorted_sink:
  fixes key :: "'a \<Rightarrow> 'b::linorder"
  assumes cmp: "\<And>a b. a \<in> A \<Longrightarrow> b \<in> A \<Longrightarrow> (cmp a b < 0) = (key b < key a)"
      and "x \<in> A" "set rs \<subseteq> A" "sorted (map key rs)"
  shows "sorted (map key (sink cmp x rs))"
  using assms(3,4)
proof (induction rs)
  case Nil
  show ?case by simp
next
  case (Cons y rs)
  have y: "y \<in> A" using Cons.prems by simp
  show ?case
  proof (cases "cmp x y < 0")
    case True
    then have "key y < key x" using cmp [OF \<open>x \<in> A\<close> y] by simp
    moreover have "sorted (map key (sink cmp x rs))"
      using Cons by simp
    ultimately show ?thesis
      using True Cons.prems by (auto simp: set_sink)
  next
    case False
    then have "key x \<le> key y" using cmp [OF \<open>x \<in> A\<close> y] by simp
    then show ?thesis
      using False Cons.prems by auto
  qed
qed

lemma sorted_fold_sink:
  fixes key :: "'a \<Rightarrow> 'b::linorder"
  assumes cmp: "\<And>a b. a \<in> A \<Longrightarrow> b \<in> A \<Longrightarrow> (cmp a b < 0) = (key b < key a)"
      and "set xs \<subseteq> A" "set rs \<subseteq> A" "sorted (map key rs)"
  shows "sorted (map key (fold (sink cmp) xs rs))"
  using assms(2-)
proof (induction xs arbitrary: rs)
  case Nil
  then show ?case by simp
next
  case (Cons x xs)
  have "sorted (map key (sink cmp x rs))"
    using Cons.prems by (intro sorted_sink [OF cmp]) auto
  moreover have "set (sink cmp x rs) \<subseteq> A"
    using Cons.prems by (simp add: set_sink)
  ultimately show ?case
    using Cons.IH [of "sink cmp x rs"] Cons.prems by simp
qed

lemma sorted_SortFunc:
  fixes key :: "'a \<Rightarrow> 'b::linorder"
  assumes cmp: "\<And>a b. a \<in> A \<Longrightarrow> b \<in> A \<Longrightarrow> (cmp a b < 0) = (key b < key a)"
      and "set xs \<subseteq> A"
  shows "sorted_wrt (\<lambda>a b. key b \<le> key a) (SortFunc cmp xs)"
proof -
  have "sorted (map key (fold (sink cmp) xs []))"
    using assms(2) by (intro sorted_fold_sink [OF cmp]) auto
  then show ?thesis
    by (simp add: SortFunc_def sorted_wrt_rev sorted_map)
qed

lemma descending_unique:
  fixes key :: "'a \<Rightarrow> 'b::linorder"
  assumes "sorted_wrt (\<lambda>a b. key b \<le> key a) xs"
      and "sorted_wrt (\<lambda>a b. key b \<le> key a) ys"
      and "mset xs = mset ys"
      and "inj_on key (set xs)"
  shows "xs = ys"
proof -
  have sx: "sorted (rev (map key xs))" and sy: "sorted (rev (map key ys))"
    using assms(1,2) by (simp_all add: sorted_wrt_rev sorted_wrt_map)
  have "mset (rev (map key xs)) = mset (rev (map key ys))"
    using assms(3) by simp
  then have "rev (map key xs) = rev (map key ys)"
    using properties_for_sort [OF _ sx, of "rev (map key ys)"]
      properties_for_sort [OF _ sy, of "rev (map key ys)"] by simp
  then have "map key xs = map key ys" by simp
  moreover have "set ys = set xs"
    using assms(3) by (metis set_mset_mset)
  ultimately show ?thesis
    using assms(4) by (simp add: inj_on_map_eq_map)
qed

lemma mset_map_filter_range:
  assumes "range_order m ks1" "range_order m ks2"
  shows "mset (List.map_filter f ks1) = mset (List.map_filter f ks2)"
proof -
  have "mset ks1 = mset ks2"
    using assms by (simp add: range_order_def set_eq_iff_mset_eq_distinct [symmetric])
  then show ?thesis
    by (simp add: List.map_filter_def)
qed

lemma SortFunc_unique:
  fixes key :: "'a \<Rightarrow> 'b::linorder"
  assumes cmp: "\<And>a b. a \<in> A \<Longrightarrow> b \<in> A \<Longrightarrow> (cmp a b < 0) = (key b < key a)"
      and "set xs \<subseteq> A" "mset xs = mset ys" "inj_on key (set xs)"
  shows "SortFunc cmp xs = SortFunc cmp ys"
proof (rule descending_unique [where key = key])
  show "sorted_wrt (\<lambda>a b. key b \<le> key a) (SortFunc cmp xs)"
    by (rule sorted_SortFunc [OF cmp assms(2)])
  have ys: "set ys \<subseteq> A"
    using assms(2,3) by (metis set_mset_mset)
  show "sorted_wrt (\<lambda>a b. key b \<le> key a) (SortFunc cmp ys)"
    by (rule sorted_SortFunc [OF cmp ys])
  show "mset (SortFunc cmp xs) = mset (SortFunc cmp ys)"
    by (simp add: mset_SortFunc assms(3))
  show "inj_on key (set (SortFunc cmp xs))"
    using assms(4) by (metis mset_SortFunc set_mset_mset)
qed

lemma cmpProductFrequency_key:
  "(cmpProductFrequency a b < 0) = (pf_Frequency b < pf_Frequency a)"
  by (simp add: cmpProductFrequency_def)

lemma f_gt_fin: "a \<noteq> NaN \<Longrightarrow> b \<noteq> NaN \<Longrightarrow> f_gt a b = (fin_value b < fin_value a)"
  by (cases a; cases b) simp_all

lemma f_ge_fin: "a \<noteq> NaN \<Longrightarrow> b \<noteq> NaN \<Longrightarrow> f_ge a b = (fin_value b \<le> fin_value a)"
  by (cases a; cases b) simp_all

lemma cmpCountryRevenue_key:
  "cr_TotalRevenue a \<noteq> NaN \<Longrightarrow> cr_TotalRevenue b \<noteq> NaN \<Longrightarrow>
   (cmpCountryRevenue a b < 0) = (fin_value (cr_TotalRevenue b) < fin_value (cr_TotalRevenue a))"
  by (simp add: cmpCountryRevenue_def f_gt_fin)

lemma cmpMonthlyData_key:
  "md_Volume a \<noteq> NaN \<Longrightarrow> md_Volume b \<noteq> NaN \<Longrightarrow>
   (cmpMonthlyData a b < 0) = (fin_value (md_Volume b) < fin_value (md_Volume a))"
  by (simp add: cmpMonthlyData_def f_gt_fin)

lemma cmpRegionRevenue_key:
  "rr_Revenue a \<noteq> NaN \<Longrightarrow> rr_Revenue b \<noteq> NaN \<Longrightarrow>
   (cmpRegionRevenue a b < 0) = (fin_value (rr_Revenue b) < fin_value (rr_Revenue a))"
  by (simp add: cmpRegionRevenue_def f_gt_fin)

section \<open>Order of the rollups\<close>

lemmas sort_defs = computeAnalytics_def SetData_def sortCountryRevenue_def sortTopProducts_def
  sortMonthlySales_def sortTopRegions_def SortFunc_def List.map_filter_def
  cmpCountryRevenue_def cmpProductFrequency_def cmpMonthlyData_def cmpRegionRevenue_def

lemma set_map_filter_ran: "set (List.map_filter g ks) \<subseteq> ran g"
  by (auto simp: List.map_filter_def ran_def)

lemma sortTopProducts_descending:
  "successively (\<lambda>a b. pf_Frequency b \<le> pf_Frequency a) (sortTopProducts g ks)"
  unfolding sortTopProducts_def
  by (rule successively_if_sorted_wrt)
    (rule sorted_SortFunc [where A = UNIV], simp_all add: cmpProductFrequency_key)

lemma descending_float:
  fixes metric :: "'a \<Rightarrow> float64"
  assumes cmp: "\<And>a b. metric a \<noteq> NaN \<Longrightarrow> metric b \<noteq> NaN \<Longrightarrow>
                  (cmp a b < 0) = (fin_value (metric b) < fin_value (metric a))"
      and "NaN \<notin> metric ` set xs"
  shows "successively (\<lambda>a b. f_ge (metric a) (metric b)) (SortFunc cmp xs)"
proof -
  have A: "set xs \<subseteq> {e. metric e \<noteq> NaN}"
    using assms(2) by (metis (mono_tags, lifting) imageI mem_Collect_eq subsetI)
  have "sorted_wrt (\<lambda>a b. fin_value (metric b) \<le> fin_value (metric a)) (SortFunc cmp xs)"
    by (rule sorted_SortFunc [where A = "{e. metric e \<noteq> NaN}", OF _ A]) (simp add: cmp)
  moreover have "set (SortFunc cmp xs) = set xs"
    by (metis mset_SortFunc set_mset_mset)
  moreover have "f_ge (metric a) (metric b)"
    if "a \<in> set xs" "b \<in> set xs" "fin_value (metric b) \<le> fin_value (metric a)" for a b
  proof -
    have "metric a \<noteq> NaN" "metric b \<noteq> NaN"
      using that(1,2) A by auto
    then show ?thesis using that(3) by (simp add: f_ge_fin)
  qed
  ultimately have "sorted_wrt (\<lambda>a b. f_ge (metric a) (metric b)) (SortFunc cmp xs)"
    by (auto elim!: sorted_wrt_mono_rel [rotated])
  then show ?thesis by (rule successively_if_sorted_wrt)
qed

lemma sortCountryRevenue_descending:
  assumes "NaN \<notin> cr_TotalRevenue ` ran g"
  shows "successively (\<lambda>a b. f_ge (cr_TotalRevenue a) (cr_TotalRevenue b))
           (sortCountryRevenue g ks)"
  unfolding sortCountryRevenue_def
  using assms set_map_filter_ran [of g ks]
  by (intro descending_float cmpCountryRevenue_key) auto

lemma sortTopRegions_descending:
  assumes "NaN \<notin> rr_Revenue ` ran g"
  shows "successively (\<lambda>a b. f_ge (rr_Revenue a) (rr_Revenue b)) (sortTopRegions g ks)"
  unfolding sortTopRegions_def
  using assms set_map_filter_ran [of g ks]
  by (intro descending_float cmpRegionRevenue_key) auto

lemma sortMonthlySales_descending:
  assumes "NaN \<notin> ran g"
  shows "successively (\<lambda>a b. f_ge (md_Volume a) (md_Volume b)) (sortMonthlySales g ks)"
  unfolding sortMonthlySales_def
  using assms
  by (intro descending_float cmpMonthlyData_key)
    (auto simp: List.map_filter_def ran_def)

text \<open>
  C6. Every rollup slice of a finalized snapshot is to be sorted descending by its metric:
  of two adjacent entries the earlier has a metric greater than or equal to the later.
  The lemmas above show it for the product slice, whose metric is an integer, and for the
  country, monthly and region slices when none of their amounts is NaN. The code does not
  put a slice that holds a NaN amount into descending order: \<open>strconv.ParseFloat\<close>
  returns NaN for the field \<open>NaN\<close>, and the comparison functions answer 0 for a NaN
  against every entry. For a laptop sale with total price NaN and a mouse sale, in either
  order of iteration, the country, monthly and region slices each have an adjacent pair
  whose earlier metric is not greater than or equal to the later one.
\<close>

theorem nan_breaks_descending_order:
  "\<not> successively (\<lambda>a b. f_ge (cr_TotalRevenue a) (cr_TotalRevenue b))
        (pd_CountryRevenue (computeAnalytics [nan_laptop, mouse] laptop_mouse_orders 0))
   \<and> \<not> successively (\<lambda>a b. f_ge (md_Volume a) (md_Volume b))
        (pd_MonthlySales (computeAnalytics [nan_laptop, mouse] laptop_mouse_orders 0))
   \<and> \<not> successively (\<lambda>a b. f_ge (rr_Revenue a) (rr_Revenue b))
        (pd_TopRegions (computeAnalytics [nan_laptop, mouse] laptop_mouse_orders 0))
   \<and> \<not> successively (\<lambda>a b. f_ge (cr_TotalRevenue a) (cr_TotalRevenue b))
        (pd_CountryRevenue (computeAnalytics [nan_laptop, mouse] mouse_laptop_orders 0))
   \<and> \<not> successively (\<lambda>a b. f_ge (md_Volume a) (md_Volume b))
        (pd_MonthlySales (computeAnalytics [nan_laptop, mouse] mouse_laptop_orders 0))
   \<and> \<not> successively (\<lambda>a b. f_ge (rr_Revenue a) (rr_Revenue b))
        (pd_TopRegions (computeAnalytics [nan_laptop, mouse] mouse_laptop_orders 0))"
  by (simp add: sort_defs example_defs aggregate_defs)

section \<open>The composite key\<close>

text \<open>
  The key determines the triple when neither the country nor the product name contains
  the separator, and the entries of the country slice carry pairwise distinct triples.
\<close>

lemma split_at_separator:
  assumes "c \<notin> set a" "c \<notin> set a'" "a @ c # r = a' @ c # r'"
  shows "a = a' \<and> r = r'"
  using assms
proof (induction a arbitrary: a')
  case Nil
  then show ?case by (cases a') auto
next
  case (Cons x a)
  then show ?case by (cases a') auto
qed

lemma countryKey_inj:
  assumes "CHR ''|'' \<notin> set (tx_Country s) \<union> set (tx_ProductName s)"
      and "CHR ''|'' \<notin> set (tx_Country t) \<union> set (tx_ProductName t)"
      and "countryKey s = countryKey t"
  shows "tx_Country s = tx_Country t \<and> tx_ProductName s = tx_ProductName t
       \<and> tx_Category s = tx_Category t"
proof -
  have 1: "tx_Country s = tx_Country t
         \<and> tx_ProductName s @ ''|'' @ tx_Category s = tx_ProductName t @ ''|'' @ tx_Category t"
    using assms by (intro split_at_separator [of "CHR ''|''"]) (auto simp: countryKey_def)
  then have "tx_ProductName s = tx_ProductName t \<and> tx_Category s = tx_Category t"
    using assms(1,2) by (intro split_at_separator [of "CHR ''|''"]) auto
  with 1 show ?thesis by simp
qed

lemma aggregateCountry_keyed:
  assumes "\<forall>k e. g k = Some e \<longrightarrow> cr_Country e @ ''|'' @ cr_ProductName e @ ''|'' @ cr_Category e = k"
  shows "\<forall>k e. aggregateCountry t g k = Some e
           \<longrightarrow> cr_Country e @ ''|'' @ cr_ProductName e @ ''|'' @ cr_Category e = k"
  using assms
  by (auto simp: aggregateCountry_def countryKey_def Let_def split: option.splits if_splits)

lemma fold_aggregateCountry_keyed:
  assumes "\<forall>k e. g k = Some e \<longrightarrow> cr_Country e @ ''|'' @ cr_ProductName e @ ''|'' @ cr_Category e = k"
  shows "\<forall>k e. fold aggregateCountry ts g k = Some e
           \<longrightarrow> cr_Country e @ ''|'' @ cr_ProductName e @ ''|'' @ cr_Category e = k"
  using assms
proof (induction ts arbitrary: g)
  case Nil
  then show ?case by simp
next
  case (Cons t ts)
  show ?case
    using Cons.IH [OF aggregateCountry_keyed [OF Cons.prems, of t]] by simp
qed

lemma country_triples_distinct:
  assumes "range_order (countryGroups (fold aggregateTransaction data newGroups)) ks"
  shows "distinct (map (\<lambda>e. (cr_Country e, cr_ProductName e, cr_Category e))
           (sortCountryRevenue (countryGroups (fold aggregateTransaction data newGroups)) ks))"
proof -
  let ?g = "fold aggregateCountry data Map.empty"
  let ?f = "\<lambda>e. (cr_Country e, cr_ProductName e, cr_Category e)"
  have g: "countryGroups (fold aggregateTransaction data newGroups) = ?g"
    by (simp add: fold_aggregateTransaction [of data newGroups])
  have keyed: "\<forall>k e. ?g k = Some e
                 \<longrightarrow> cr_Country e @ ''|'' @ cr_ProductName e @ ''|'' @ cr_Category e = k"
    by (rule fold_aggregateCountry_keyed) simp
  have ks: "distinct ks" "set ks = dom ?g"
    using assms by (simp_all add: range_order_def g)
  have "filter (\<lambda>k. ?g k \<noteq> None) ks = ks"
    using ks by (auto simp: filter_id_conv)
  then have mf: "List.map_filter ?g ks = map (\<lambda>k. the (?g k)) ks"
    by (simp add: List.map_filter_def)
  have "inj_on (\<lambda>k. ?f (the (?g k))) (set ks)"
  proof (rule inj_onI)
    fix j k assume j: "j \<in> set ks" and k: "k \<in> set ks"
      and eq: "?f (the (?g j)) = ?f (the (?g k))"
    obtain d e where d: "?g j = Some d" and e: "?g k = Some e"
      using j k ks(2) by auto
    have "cr_Country d @ ''|'' @ cr_ProductName d @ ''|'' @ cr_Category d = j"
      using keyed [rule_format, OF d] .
    moreover have "cr_Country e @ ''|'' @ cr_ProductName e @ ''|'' @ cr_Category e = k"
      using keyed [rule_format, OF e] .
    moreover have "cr_Country d = cr_Country e" "cr_ProductName d = cr_ProductName e"
      "cr_Category d = cr_Category e"
      using eq d e by simp_all
    ultimately show "j = k" by (simp only:)
  qed
  then have "distinct (map ?f (List.map_filter ?g ks))"
    using ks(1) by (simp add: mf distinct_map comp_def)
  moreover have "mset (map ?f (SortFunc cmpCountryRevenue (List.map_filter ?g ks)))
               = mset (map ?f (List.map_filter ?g ks))"
    by (simp add: mset_SortFunc)
  ultimately have "distinct (map ?f (SortFunc cmpCountryRevenue (List.map_filter ?g ks)))"
    using mset_eq_imp_distinct_iff by blast
  then show ?thesis
    unfolding g sortCountryRevenue_def .
qed

text \<open>
  C9. Two transactions with distinct (country, product name, category) triples are to be
  accumulated into distinct CountryRevenue entries. The code keys the entries by the
  string \<open>country|product|category\<close>: the product \<open>TV|4K\<close> in category \<open>Video\<close> and the
  product \<open>TV\<close> in category \<open>4K|Video\<close>, both sold in \<open>US\<close>, get the same key and are
  merged into one entry, which counts two transactions under the first triple.
\<close>

theorem country_key_collision:
  "countryKey tv_a = countryKey tv_b
   \<and> (tx_Country tv_a, tx_ProductName tv_a, tx_Category tv_a)
       \<noteq> (tx_Country tv_b, tx_ProductName tv_b, tx_Category tv_b)
   \<and> range_orders (fold aggregateTransaction [tv_a, tv_b] newGroups) tv_orders
   \<and> pd_CountryRevenue (computeAnalytics [tv_a, tv_b] tv_orders 0)
       = [\<lparr>cr_Country = ''US'', cr_ProductName = ''TV|4K'', cr_Category = ''Video'',
            cr_TotalRevenue = Fin 15, cr_Transactions = 2\<rparr>]"
  by (auto simp add: sort_defs example_defs aggregate_defs range_orders_def range_order_def)

section \<open>Calling SetData twice\<close>

lemma fin_value_inj: "a \<noteq> NaN \<Longrightarrow> b \<noteq> NaN \<Longrightarrow> fin_value a = fin_value b \<Longrightarrow> a = b"
  by (cases a; cases b) simp_all

lemma SortFunc_unique_int:
  fixes metric :: "'a \<Rightarrow> int"
  assumes cmp: "\<And>a b. (cmp a b < 0) = (metric b < metric a)"
      and "mset xs = mset ys"
      and "distinct (map metric (SortFunc cmp xs))"
  shows "SortFunc cmp xs = SortFunc cmp ys"
proof (rule SortFunc_unique [where A = UNIV and key = metric])
  show "(cmp a b < 0) = (metric b < metric a)" for a b by (rule cmp)
  show "mset xs = mset ys" by fact
  have "set (SortFunc cmp xs) = set xs"
    by (metis mset_SortFunc set_mset_mset)
  then show "inj_on metric (set xs)"
    using assms(3) by (simp add: distinct_map)
qed simp

lemma SortFunc_unique_float:
  fixes metric :: "'a \<Rightarrow> float64"
  assumes cmp: "\<And>a b. metric a \<noteq> NaN \<Longrightarrow> metric b \<noteq> NaN \<Longrightarrow>
                  (cmp a b < 0) = (fin_value (metric b) < fin_value (metric a))"
      and "mset xs = mset ys"
      and "distinct (map metric (SortFunc cmp xs))"
      and "NaN \<notin> metric ` set (SortFunc cmp xs)"
  shows "SortFunc cmp xs = SortFunc cmp ys"
proof (rule SortFunc_unique [where A = "{e. metric e \<noteq> NaN}" and key = "\<lambda>e. fin_value (metric e)"])
  show "(cmp a b < 0) = (fin_value (metric b) < fin_value (metric a))"
    if "a \<in> {e. metric e \<noteq> NaN}" "b \<in> {e. metric e \<noteq> NaN}" for a b
    using that by (simp add: cmp)
  show "mset xs = mset ys" by fact
  have s: "set (SortFunc cmp xs) = set xs"
    by (metis mset_SortFunc set_mset_mset)
  show "set xs \<subseteq> {e. metric e \<noteq> NaN}"
    using assms(4) unfolding s by (metis (mono_tags, lifting) imageI mem_Collect_eq subsetI)
  have "inj_on metric (set xs)"
    using assms(3) s by (simp add: distinct_map)
  then show "inj_on (\<lambda>e. fin_value (metric e)) (set xs)"
    using assms(4) unfolding s inj_on_def
    by (metis fin_value_inj image_eqI)
qed

lemma SetData_slices:
  "pd_CountryRevenue (precomputed (SetData a data os t u)) =
     sortCountryRevenue (countryGroups (fold aggregateTransaction data newGroups)) (o_country os)"
  "pd_TopProducts (precomputed (SetData a data os t u)) =
     sortTopProducts (productGroups (fold aggregateTransaction data newGroups)) (o_product os)"
  "pd_MonthlySales (precomputed (SetData a data os t u)) =
     sortMonthlySales (monthlyGroups (fold aggregateTransaction data newGroups)) (o_monthly os)"
  "pd_TopRegions (precomputed (SetData a data os t u)) =
     sortTopRegions (regionGroups (fold aggregateTransaction data newGroups)) (o_region os)"
  "pd_RecordCount (precomputed (SetData a data os t u)) = int (length data)"
  by (simp_all add: SetData_def computeAnalytics_def Let_def)

text \<open>
  C8, as amended. Two calls of \<open>SetData\<close> with the same input publish rollups with the
  same contents: each of the four slices holds the same entries with the same values,
  the same number of times, and the record count is the same. A slice whose entries have
  pairwise different metric values, none of them NaN, also has the same order of elements
  in both calls. The order of entries with equal metric is left to the order in which
  the runtime iterates over the map.
\<close>

theorem SetData_twice_same_entries:
  assumes "range_orders (fold aggregateTransaction data newGroups) os1"
      and "range_orders (fold aggregateTransaction data newGroups) os2"
  shows "let s1 = precomputed (SetData a data os1 t1 u1);
             s2 = precomputed (SetData (SetData a data os1 t1 u1) data os2 t2 u2)
         in mset (pd_CountryRevenue s1) = mset (pd_CountryRevenue s2)
          \<and> mset (pd_TopProducts s1) = mset (pd_TopProducts s2)
          \<and> mset (pd_MonthlySales s1) = mset (pd_MonthlySales s2)
          \<and> mset (pd_TopRegions s1) = mset (pd_TopRegions s2)
          \<and> pd_RecordCount s1 = pd_RecordCount s2
          \<and> (distinct (map cr_TotalRevenue (pd_CountryRevenue s1))
               \<and> NaN \<notin> cr_TotalRevenue ` set (pd_CountryRevenue s1)
               \<longrightarrow> pd_CountryRevenue s1 = pd_CountryRevenue s2)
          \<and> (distinct (map pf_Frequency (pd_TopProducts s1))
               \<longrightarrow> pd_TopProducts s1 = pd_TopProducts s2)
          \<and> (distinct (map md_Volume (pd_MonthlySales s1))
               \<and> NaN \<notin> md_Volume ` set (pd_MonthlySales s1)
               \<longrightarrow> pd_MonthlySales s1 = pd_MonthlySales s2)
          \<and> (distinct (map rr_Revenue (pd_TopRegions s1))
               \<and> NaN \<notin> rr_Revenue ` set (pd_TopRegions s1)
               \<longrightarrow> pd_TopRegions s1 = pd_TopRegions s2)"
proof -
  let ?g = "fold aggregateTransaction data newGroups"
  have c: "range_order (countryGroups ?g) (o_country os1)"
          "range_order (countryGroups ?g) (o_country os2)"
    and p: "range_order (productGroups ?g) (o_product os1)"
           "range_order (productGroups ?g) (o_product os2)"
    and m: "range_order (monthlyGroups ?g) (o_monthly os1)"
           "range_order (monthlyGroups ?g) (o_monthly os2)"
    and r: "range_order (regionGroups ?g) (o_region os1)"
           "range_order (regionGroups ?g) (o_region os2)"
    using assms by (simp_all add: range_orders_def)
  note mc = mset_map_filter_range [OF c] and mp = mset_map_filter_range [OF p]
    and mm = mset_map_filter_range [OF m] and mr = mset_map_filter_range [OF r]
  let ?c1 = "List.map_filter (countryGroups ?g) (o_country os1)"
  let ?c2 = "List.map_filter (countryGroups ?g) (o_country os2)"
  let ?p1 = "List.map_filter (productGroups ?g) (o_product os1)"
  let ?p2 = "List.map_filter (productGroups ?g) (o_product os2)"
  let ?f = "\<lambda>month. map_option (\<lambda>volume. \<lparr>md_Month = month, md_Volume = volume\<rparr>)
              (monthlyGroups ?g month)"
  let ?m1 = "List.map_filter ?f (o_monthly os1)"
  let ?m2 = "List.map_filter ?f (o_monthly os2)"
  let ?r1 = "List.map_filter (regionGroups ?g) (o_region os1)"
  let ?r2 = "List.map_filter (regionGroups ?g) (o_region os2)"
  have mc: "mset ?c1 = mset ?c2" by (rule mset_map_filter_range [OF c])
  have mp: "mset ?p1 = mset ?p2" by (rule mset_map_filter_range [OF p])
  have mm: "mset ?m1 = mset ?m2" by (rule mset_map_filter_range [OF m])
  have mr: "mset ?r1 = mset ?r2" by (rule mset_map_filter_range [OF r])
  have 1: "mset (SortFunc cmpCountryRevenue ?c1) = mset (SortFunc cmpCountryRevenue ?c2)"
    by (simp only: mset_SortFunc mc)
  have 2: "mset (SortFunc cmpProductFrequency ?p1) = mset (SortFunc cmpProductFrequency ?p2)"
    by (simp only: mset_SortFunc mp)
  have 3: "mset (SortFunc cmpMonthlyData ?m1) = mset (SortFunc cmpMonthlyData ?m2)"
    by (simp only: mset_SortFunc mm)
  have 4: "mset (SortFunc cmpRegionRevenue ?r1) = mset (SortFunc cmpRegionRevenue ?r2)"
    by (simp only: mset_SortFunc mr)
  have 5: "SortFunc cmpCountryRevenue ?c1 = SortFunc cmpCountryRevenue ?c2"
    if "distinct (map cr_TotalRevenue (SortFunc cmpCountryRevenue ?c1))
        \<and> NaN \<notin> cr_TotalRevenue ` set (SortFunc cmpCountryRevenue ?c1)"
    using that SortFunc_unique_float [where cmp = cmpCountryRevenue and metric = cr_TotalRevenue,
        OF cmpCountryRevenue_key mc] by blast
  have 6: "SortFunc cmpProductFrequency ?p1 = SortFunc cmpProductFrequency ?p2"
    if "distinct (map pf_Frequency (SortFunc cmpProductFrequency ?p1))"
    using that SortFunc_unique_int [where cmp = cmpProductFrequency and metric = pf_Frequency,
        OF cmpProductFrequency_key mp] by blast
  have 7: "SortFunc cmpMonthlyData ?m1 = SortFunc cmpMonthlyData ?m2"
    if "distinct (map md_Volume (SortFunc cmpMonthlyData ?m1))
        \<and> NaN \<notin> md_Volume ` set (SortFunc cmpMonthlyData ?m1)"
    using that SortFunc_unique_float [where cmp = cmpMonthlyData and metric = md_Volume,
        OF cmpMonthlyData_key mm] by blast
  have 8: "SortFunc cmpRegionRevenue ?r1 = SortFunc cmpRegionRevenue ?r2"
    if "distinct (map rr_Revenue (SortFunc cmpRegionRevenue ?r1))
        \<and> NaN \<notin> rr_Revenue ` set (SortFunc cmpRegionRevenue ?r1)"
    using that SortFunc_unique_float [where cmp = cmpRegionRevenue and metric = rr_Revenue,
        OF cmpRegionRevenue_key mr] by blast
  show ?thesis
    unfolding Let_def SetData_slices
    unfolding sortCountryRevenue_def sortTopProducts_def sortMonthlySales_def sortTopRegions_def
    using 1 2 3 4 5 6 7 8 by blast
qed

theorem SetData_twice_same_entries_witness:
  "range_orders (fold aggregateTransaction [laptop50, laptop60, mouse] newGroups)
     laptop_mouse_orders
   \<and> range_orders (fold aggregateTransaction [laptop50, laptop60, mouse] newGroups)
     mouse_laptop_orders
   \<and> (let s1 = precomputed
                 (SetData NewAnalytics [laptop50, laptop60, mouse] laptop_mouse_orders 1 2);
           s2 = precomputed
                 (SetData
                    (SetData NewAnalytics [laptop50, laptop60, mouse] laptop_mouse_orders 1 2)
                    [laptop50, laptop60, mouse] mouse_laptop_orders 3 4)
       in distinct (map pf_Frequency (pd_TopProducts s1))
        \<and> pd_TopProducts s1 = pd_TopProducts s2
        \<and> mset (pd_CountryRevenue s1) = mset (pd_CountryRevenue s2)
        \<and> mset (pd_MonthlySales s1) = mset (pd_MonthlySales s2)
        \<and> mset (pd_TopRegions s1) = mset (pd_TopRegions s2))"
proof -
  have r1: "range_orders (fold aggregateTransaction [laptop50, laptop60, mouse] newGroups)
              laptop_mouse_orders"
    by (auto simp add: range_orders_def range_order_def example_defs aggregate_defs)
  have r2: "range_orders (fold aggregateTransaction [laptop50, laptop60, mouse] newGroups)
              mouse_laptop_orders"
    by (auto simp add: range_orders_def range_order_def example_defs aggregate_defs)
  have d: "distinct (map pf_Frequency (pd_TopProducts (precomputed
             (SetData NewAnalytics [laptop50, laptop60, mouse] laptop_mouse_orders 1 2))))"
    by (simp add: sort_defs example_defs aggregate_defs)
  show ?thesis
    using SetData_twice_same_entries [OF r1 r2, of NewAnalytics 1 2 3 4] r1 r2 d
    by (simp add: Let_def)
qed

text \<open>
  C8, as stated, fails: a laptop sale and a mouse sale give two products of frequency 1.
  When the first call iterates over the product map with Laptop first and the second call
  with Mouse first, the two published product slices differ in their order.
\<close>

theorem SetData_order_counterexample:
  "range_orders (fold aggregateTransaction [laptop50, mouse] newGroups) laptop_mouse_orders
   \<and> range_orders (fold aggregateTransaction [laptop50, mouse] newGroups) mouse_laptop_orders
   \<and> pd_TopProducts (precomputed (SetData NewAnalytics [laptop50, mouse] laptop_mouse_orders 0 0))
      \<noteq> pd_TopProducts (precomputed
            (SetData (SetData NewAnalytics [laptop50, mouse] laptop_mouse_orders 0 0)
               [laptop50, mouse] mouse_laptop_orders 0 0))"
  by (auto simp add: sort_defs example_defs aggregate_defs range_orders_def range_order_def)

section \<open>Parsing a line\<close>




section \<open>Loading a file without valid rows\<close>

lemma fold_no_valid:
  "\<forall>p\<in>set ps. \<not> ptx_valid p \<Longrightarrow>
   fold (\<lambda>ptx (l, c). if ptx_valid ptx then (aggregateTransaction (ptx_tx ptx) l, c + 1)
                       else (l, c)) ps (l0, c0) = (l0, c0::int)"
  by (induction ps) simp_all

lemma processBatch_no_valid:
  assumes "\<forall>line\<in>set batch. \<not> ptx_valid (parseTask lib line)"
      and "processBatch lib ctx_done batch os acc = Inr acc'"
  shows "acc_recordCount acc' = acc_recordCount acc"
proof -
  have "\<forall>p\<in>set (map (parseTask lib) batch). \<not> ptx_valid p"
    using assms(1) by simp
  from fold_no_valid [OF this] show ?thesis
    using assms(2) by (auto simp: processBatch_def Let_def split: if_splits)
qed

lemma scanLoop_no_valid:
  assumes "\<forall>line\<in>set lines \<union> set batch. \<not> ptx_valid (parseTask lib line)"
      and "scanLoop lib ctx_done ms lines batch i acc = Inr (batch', i', acc')"
  shows "acc_recordCount acc' = acc_recordCount acc
       \<and> (\<forall>line\<in>set batch'. \<not> ptx_valid (parseTask lib line))"
  using assms
proof (induction lines arbitrary: batch i acc)
  case Nil
  then show ?case by simp
next
  case (Cons line rest)
  show ?case
  proof (cases "length (batch @ [line]) \<ge> batchSize")
    case True
    with Cons.prems(2) obtain acc1 where
      p: "processBatch lib ctx_done (batch @ [line]) (ms i) acc = Inr acc1"
      and l: "scanLoop lib ctx_done ms rest [] (Suc i) acc1 = Inr (batch', i', acc')"
      by (auto split: if_splits sum.splits)
    have "acc_recordCount acc1 = acc_recordCount acc"
      using Cons.prems(1) by (intro processBatch_no_valid [OF _ p]) auto
    moreover have "acc_recordCount acc' = acc_recordCount acc1
       \<and> (\<forall>line\<in>set batch'. \<not> ptx_valid (parseTask lib line))"
      using Cons.prems(1) by (intro Cons.IH [OF _ l]) auto
    ultimately show ?thesis by simp
  next
    case False
    with Cons.prems(2) have
      "scanLoop lib ctx_done ms rest (batch @ [line]) i acc = Inr (batch', i', acc')"
      by (auto split: if_splits)
    then show ?thesis
      using Cons.prems(1) by (intro Cons.IH) auto
  qed
qed

lemma streamProcessCSV_no_valid:
  assumes "\<forall>line\<in>set (tl (sc_lines sc)). \<not> ptx_valid (parseTask lib line)"
  shows "\<exists>err. streamProcessCSV lib (Some sc) ctx_done rt a = (Some err, a)"
proof (cases "sc_lines sc")
  case Nil
  then show ?thesis by (simp add: streamProcessCSV_def)
next
  case (Cons header rest)
  let ?acc0 = "\<lparr>acc_groups = newGroups, acc_recordCount = 0\<rparr>"
  have rest: "\<forall>line\<in>set rest \<union> set []. \<not> ptx_valid (parseTask lib line)"
    using assms Cons by simp
  show ?thesis
  proof (cases "scanLoop lib ctx_done (rt_merge rt) rest [] 0 ?acc0")
    case (Inl err)
    then show ?thesis using Cons by (simp add: streamProcessCSV_def)
  next
    case (Inr res)
    obtain batch i acc where res: "res = (batch, i, acc)" by (cases res)
    from scanLoop_no_valid [OF rest Inr [unfolded res]]
    have c: "acc_recordCount acc = 0"
      and b: "\<forall>line\<in>set batch. \<not> ptx_valid (parseTask lib line)" by simp_all
    show ?thesis
    proof (cases "if batch \<noteq> [] then processBatch lib ctx_done batch (rt_merge rt i) acc
                  else Inr acc")
      case (Inl err)
      then show ?thesis using Cons \<open>scanLoop _ _ _ _ _ _ _ = Inr res\<close> res
        by (simp add: streamProcessCSV_def)
    next
      case (Inr acc')
      then have "acc_recordCount acc' = 0"
        using c processBatch_no_valid [OF b] by (auto split: if_splits)
      then show ?thesis using Cons \<open>scanLoop _ _ _ _ _ _ _ = Inr res\<close> res Inr
        by (simp add: streamProcessCSV_def)
    qed
  qed
qed

text \<open>
  C3, as amended. For every input file that is empty, holds only a header row, or holds
  no data row that parses, \<open>LoadFromCSV\<close> returns a non-nil error and leaves the published
  snapshot exactly as it was before the call, provided that the call does not find a fresh
  cache: no cache file that decodes with a \<open>last_modified\<close> after the modification time of
  the source file.
\<close>

theorem fatal_empty_on_cache_miss:
  assumes "fs_open fs path = Some sc"
      and "\<forall>line\<in>set (tl (sc_lines sc)). \<not> ptx_valid (parseTask lib line)"
      and "\<forall>c m. loadFromCache fs path = Inr c \<and> fs_modTime fs path = Some m
             \<longrightarrow> pd_LastModified c \<le> m"
  shows "fst (LoadFromCSV lib fs ctx_done rt a path) \<noteq> None
       \<and> precomputed (fst (snd (LoadFromCSV lib fs ctx_done rt a path))) = precomputed a"
proof -
  let ?a = "a\<lparr>csvPath := path\<rparr>"
  have miss: "LoadFromCSV lib fs ctx_done rt a path = recompute lib fs ctx_done rt ?a path"
    using assms(3) by (auto simp: LoadFromCSV_def Let_def split: sum.splits option.splits)
  obtain err where
    "streamProcessCSV lib (Some sc) ctx_done rt (logInfo (ProcessingCSVFile path) ?a)
       = (Some err, logInfo (ProcessingCSVFile path) ?a)"
    using streamProcessCSV_no_valid [OF assms(2)] by blast
  then have "recompute lib fs ctx_done rt ?a path
               = (Some (ProcessCSV err), logInfo (ProcessingCSVFile path) ?a, fs)"
    by (simp add: recompute_def assms(1))
  then show ?thesis
    unfolding miss by (simp add: logInfo_def)
qed

theorem fatal_empty_on_cache_miss_witness:
  "fs_open (example_fs [header_row] 5 NoSuchFile) ''data.csv''
     = Some \<lparr>sc_lines = [header_row], sc_err = False\<rparr>
   \<and> fs_open (example_fs [] 15 (Encoded old_snapshot)) ''data.csv''
     = Some \<lparr>sc_lines = [], sc_err = False\<rparr>
   \<and> fst (LoadFromCSV example_lib (example_fs [header_row] 5 NoSuchFile) False example_rt
            three_products ''data.csv'') \<noteq> None
   \<and> precomputed (fst (snd (LoadFromCSV example_lib (example_fs [header_row] 5 NoSuchFile)
            False example_rt three_products ''data.csv''))) = precomputed three_products
   \<and> fst (LoadFromCSV example_lib (example_fs [] 15 (Encoded old_snapshot)) False example_rt
            NewAnalytics ''data.csv'') \<noteq> None
   \<and> precomputed (fst (snd (LoadFromCSV example_lib (example_fs [] 15 (Encoded old_snapshot))
            False example_rt NewAnalytics ''data.csv''))) = precomputed NewAnalytics"
proof -
  have 1: "fs_open (example_fs [header_row] 5 NoSuchFile) ''data.csv''
             = Some \<lparr>sc_lines = [header_row], sc_err = False\<rparr>"
    by (simp add: example_fs_def)
  have 2: "\<forall>line\<in>set (tl (sc_lines \<lparr>sc_lines = [header_row], sc_err = False\<rparr>)).
             \<not> ptx_valid (parseTask example_lib line)"
    by simp
  have 3: "\<forall>c m. loadFromCache (example_fs [header_row] 5 NoSuchFile) ''data.csv'' = Inr c
              \<and> fs_modTime (example_fs [header_row] 5 NoSuchFile) ''data.csv'' = Some m
             \<longrightarrow> pd_LastModified c \<le> m"
    by (simp add: example_fs_def loadFromCache_def getCacheFilename_def cacheDir_def
        cacheVersion_def)
  have 4: "fs_open (example_fs [] 15 (Encoded old_snapshot)) ''data.csv''
             = Some \<lparr>sc_lines = [], sc_err = False\<rparr>"
    by (simp add: example_fs_def)
  have 5: "\<forall>line\<in>set (tl (sc_lines \<lparr>sc_lines = [], sc_err = False\<rparr>)).
             \<not> ptx_valid (parseTask example_lib line)"
    by simp
  have 6: "\<forall>c m. loadFromCache (example_fs [] 15 (Encoded old_snapshot)) ''data.csv'' = Inr c
              \<and> fs_modTime (example_fs [] 15 (Encoded old_snapshot)) ''data.csv'' = Some m
             \<longrightarrow> pd_LastModified c \<le> m"
    by (simp add: example_fs_def loadFromCache_def getCacheFilename_def cacheDir_def
        cacheVersion_def old_snapshot_def)
  show ?thesis
    using fatal_empty_on_cache_miss [OF 1 2 3, of False example_rt three_products]
      fatal_empty_on_cache_miss [OF 4 5 6, of False example_rt NewAnalytics] 1 4
    by simp
qed

text \<open>
  A cache file is found under a name in which every slash of the path is an underscore,
  so two source paths can share one cache file.
\<close>

lemma cache_name_collision: "getCacheFilename ''data/x.csv'' = getCacheFilename ''data_x.csv''"
  by (simp add: getCacheFilename_def)

text \<open>
  C3, as stated, fails when a fresh cache exists: the source file is empty, with
  modification time 5, and the cache file decodes to a snapshot with \<open>last_modified\<close> 10.
  \<open>LoadFromCSV\<close> returns nil without opening the source file and publishes the cached
  snapshot in place of the previous one.
\<close>

theorem fresh_cache_counterexample:
  "fs_open (example_fs [] 5 (Encoded old_snapshot)) ''data.csv''
     = Some \<lparr>sc_lines = [], sc_err = False\<rparr>
   \<and> fst (LoadFromCSV example_lib (example_fs [] 5 (Encoded old_snapshot)) False example_rt
            NewAnalytics ''data.csv'') = None
   \<and> precomputed (fst (snd (LoadFromCSV example_lib (example_fs [] 5 (Encoded old_snapshot))
            False example_rt NewAnalytics ''data.csv''))) = old_snapshot
   \<and> old_snapshot \<noteq> precomputed NewAnalytics"
  by (simp add: load_defs)


section \<open>The cache check\<close>

text \<open>
  C7. \<open>LoadFromCSV\<close> installs a cached snapshot and skips the recomputation only if the
  cache file exists, decodes, and the modification time of the source file is not after
  the \<open>last_modified\<close> of the cached snapshot; it then returns nil. When the cache file
  cannot be read or decoded the load is the full recomputation from the source file, and
  the error that a recomputation returns is the error of processing the source file,
  wrapped, or nil: a cache failure (reading or writing) is never returned.
\<close>

theorem cache_used_only_if_fresh:
  "(LoadFromCSV lib fs ctx_done rt a path \<noteq> recompute lib fs ctx_done rt (a\<lparr>csvPath := path\<rparr>) path
      \<longrightarrow> (\<exists>c m. fs_gob fs (getCacheFilename path) = Encoded c
                 \<and> fs_modTime fs path = Some m
                 \<and> \<not> pd_LastModified c < m
                 \<and> LoadFromCSV lib fs ctx_done rt a path
                     = (None,
                        logInfo (LoadedFromCache (pd_RecordCount c))
                          (a\<lparr>csvPath := path, precomputed := c\<rparr>),
                        fs)))
   \<and> (fs_gob fs (getCacheFilename path) = NoSuchFile
        \<or> fs_gob fs (getCacheFilename path) = Undecodable
      \<longrightarrow> LoadFromCSV lib fs ctx_done rt a path
            = recompute lib fs ctx_done rt (a\<lparr>csvPath := path\<rparr>) path)
   \<and> fst (recompute lib fs ctx_done rt b path)
       = map_option ProcessCSV
           (fst (streamProcessCSV lib (fs_open fs path) ctx_done rt
                   (logInfo (ProcessingCSVFile path) b)))
   \<and> precomputed (fst (snd (recompute lib fs ctx_done rt b path)))
       = precomputed (snd (streamProcessCSV lib (fs_open fs path) ctx_done rt
                             (logInfo (ProcessingCSVFile path) b)))"
proof (intro conjI impI)
  assume "LoadFromCSV lib fs ctx_done rt a path
            \<noteq> recompute lib fs ctx_done rt (a\<lparr>csvPath := path\<rparr>) path"
  then show "\<exists>c m. fs_gob fs (getCacheFilename path) = Encoded c
                 \<and> fs_modTime fs path = Some m
                 \<and> \<not> pd_LastModified c < m
                 \<and> LoadFromCSV lib fs ctx_done rt a path
                     = (None,
                        logInfo (LoadedFromCache (pd_RecordCount c))
                          (a\<lparr>csvPath := path, precomputed := c\<rparr>),
                        fs)"
    by (auto simp: LoadFromCSV_def loadFromCache_def Let_def
          split: sum.splits option.splits gob_file.splits if_splits)
next
  assume "fs_gob fs (getCacheFilename path) = NoSuchFile
        \<or> fs_gob fs (getCacheFilename path) = Undecodable"
  then show "LoadFromCSV lib fs ctx_done rt a path
            = recompute lib fs ctx_done rt (a\<lparr>csvPath := path\<rparr>) path"
    by (auto simp: LoadFromCSV_def loadFromCache_def Let_def)
next
  show "fst (recompute lib fs ctx_done rt b path)
       = map_option ProcessCSV
           (fst (streamProcessCSV lib (fs_open fs path) ctx_done rt
                   (logInfo (ProcessingCSVFile path) b)))"
    by (auto simp: recompute_def split: prod.splits option.splits)
next
  show "precomputed (fst (snd (recompute lib fs ctx_done rt b path)))
       = precomputed (snd (streamProcessCSV lib (fs_open fs path) ctx_done rt
                             (logInfo (ProcessingCSVFile path) b)))"
    by (auto simp: recompute_def logInfo_def split: prod.splits option.splits)
qed

theorem cache_used_only_if_fresh_witness:
  "LoadFromCSV example_lib (example_fs [header_row, laptop_row] 5 (Encoded old_snapshot)) False
       example_rt NewAnalytics ''data.csv''
     \<noteq> recompute example_lib (example_fs [header_row, laptop_row] 5 (Encoded old_snapshot)) False
         example_rt (NewAnalytics\<lparr>csvPath := ''data.csv''\<rparr>) ''data.csv''
   \<and> fs_modTime (example_fs [header_row, laptop_row] 5 (Encoded old_snapshot)) ''data.csv'' = Some 5
   \<and> \<not> pd_LastModified old_snapshot < 5
   \<and> fs_gob (example_fs [header_row, laptop_row] 5 Undecodable) (getCacheFilename ''data.csv'')
       = Undecodable
   \<and> fst (LoadFromCSV example_lib (example_fs [header_row, laptop_row] 5 Undecodable) False
            example_rt NewAnalytics ''data.csv'') = None
   \<and> pd_RecordCount (precomputed (fst (snd
         (LoadFromCSV example_lib (example_fs [header_row, laptop_row] 5 Undecodable) False
            example_rt NewAnalytics ''data.csv'')))) = 1"
proof -
  let ?hit = "example_fs [header_row, laptop_row] 5 (Encoded old_snapshot)"
  let ?bad = "example_fs [header_row, laptop_row] 5 Undecodable"
  have r: "fst (recompute example_lib fs False example_rt (NewAnalytics\<lparr>csvPath := ''data.csv''\<rparr>)
                  ''data.csv'') = None
         \<and> pd_RecordCount (precomputed (fst (snd (recompute example_lib fs False example_rt
              (NewAnalytics\<lparr>csvPath := ''data.csv''\<rparr>) ''data.csv'')))) = 1"
    if "fs = example_fs [header_row, laptop_row] 5 cache" for fs cache
    unfolding that
    by (simp add: recompute_defs parse_defs aggregate_defs merge_defs sort_defs example_defs)
  have h: "pd_RecordCount (precomputed (fst (snd
             (LoadFromCSV example_lib ?hit False example_rt NewAnalytics ''data.csv'')))) = 6"
    by (simp add: LoadFromCSV_def recompute_defs)
  have n: "LoadFromCSV example_lib ?hit False example_rt NewAnalytics ''data.csv''
     \<noteq> recompute example_lib ?hit False example_rt (NewAnalytics\<lparr>csvPath := ''data.csv''\<rparr>)
         ''data.csv''"
    using r [of "?hit" "Encoded old_snapshot"] h by auto
  have u: "fs_gob ?bad (getCacheFilename ''data.csv'') = Undecodable"
    by (simp add: example_fs_def getCacheFilename_def cacheDir_def cacheVersion_def)
  have m: "fs_modTime ?hit ''data.csv'' = Some 5 \<and> \<not> pd_LastModified old_snapshot < 5"
    by (simp add: example_fs_def old_snapshot_def)
  show ?thesis
    using cache_used_only_if_fresh [of example_lib "?bad" False example_rt NewAnalytics "''data.csv''"]
      r [of "?bad" Undecodable] n u m
    by simp
qed

section \<open>Truncation accessors\<close>

text \<open>
  The product slice of a snapshot computed from transactions has one entry for each
  distinct product name.
\<close>

lemma dom_fold_aggregateProduct:
  "dom (fold aggregateProduct ts G) = dom G \<union> tx_ProductName ` set ts"
proof (rule set_eqI)
  fix p
  have f: "(List.find (\<lambda>t. tx_ProductName t = p) ts = None) = (p \<notin> tx_ProductName ` set ts)"
    by (auto simp: find_None_iff)
  show "p \<in> dom (fold aggregateProduct ts G) \<longleftrightarrow> p \<in> dom G \<union> tx_ProductName ` set ts"
  proof (cases "G p")
    case None
    then show ?thesis
      using f unfolding dom_def mem_Collect_eq fold_aggregateProduct_at [of ts G p]
      by (cases "List.find (\<lambda>t. tx_ProductName t = p) ts") simp_all
  next
    case (Some e)
    then show ?thesis
      unfolding dom_def mem_Collect_eq fold_aggregateProduct_at [of ts G p] by simp
  qed
qed

lemma length_SortFunc: "length (SortFunc cmp xs) = length xs"
  by (metis mset_SortFunc size_mset)

lemma length_map_filter_range:
  assumes "range_order g ks"
  shows "length (List.map_filter g ks) = card (dom g)"
proof -
  have "filter (\<lambda>k. g k \<noteq> None) ks = ks"
    using assms by (auto simp: range_order_def filter_id_conv)
  then show ?thesis
    using assms by (simp add: List.map_filter_def range_order_def distinct_card [symmetric])
qed

lemma TopProducts_length:
  assumes "range_order (productGroups (fold aggregateTransaction data newGroups)) (o_product os)"
  shows "length (pd_TopProducts (computeAnalytics data os now)) = card (tx_ProductName ` set data)"
  using length_map_filter_range [OF assms]
  by (simp add: computeAnalytics_def Let_def sortTopProducts_def length_SortFunc
      productGroups_fold dom_fold_aggregateProduct)

text \<open>
  C2. For every limit \<open>n \<ge> 0\<close> and every snapshot, \<open>TopProducts(n)\<close> returns, without
  panicking, exactly the first \<open>min n len\<close> elements of the stored (already sorted)
  product slice, in their stored order, \<open>len\<close> being the length of that slice (the
  number of distinct products, by \<open>TopProducts_length\<close>); \<open>TopRegions(n)\<close> does the same
  over the regions.
\<close>

theorem top_n_is_prefix:
  assumes "0 \<le> n"
  shows "TopProducts a n =
           Inr (take (min (nat n) (length (pd_TopProducts (precomputed a))))
                  (pd_TopProducts (precomputed a)))
       \<and> TopRegions a n =
           Inr (take (min (nat n) (length (pd_TopRegions (precomputed a))))
                  (pd_TopRegions (precomputed a)))"
  using assms by (auto simp: TopProducts_def TopRegions_def slice_to_def)

theorem top_n_is_prefix_witness:
  "(0::int) \<le> 20
   \<and> TopProducts three_products 20 = Inr (pd_TopProducts (precomputed three_products))
   \<and> TopRegions three_products 1 =
       Inr [\<lparr>rr_Region = ''California'', rr_Revenue = Fin 1030, rr_ItemsSold = 2\<rparr>]"
  using top_n_is_prefix [of 20 three_products] top_n_is_prefix [of 1 three_products]
  by (simp add: three_products_def NewAnalytics_def)

text \<open>
  C10. For every negative limit and every snapshot, also one whose product or region
  slice is empty, the length test fails, \<open>TopProducts\<close> and \<open>TopRegions\<close> reach the
  slice expression with the negative bound, and the call panics.
\<close>

theorem negative_limit_panics:
  assumes "n < 0"
  shows "TopProducts a n = Inl (SliceBoundsOutOfRange n)
       \<and> TopRegions a n = Inl (SliceBoundsOutOfRange n)"
  using assms by (simp add: TopProducts_def TopRegions_def slice_to_def)

theorem negative_limit_panics_witness:
  "(-1::int) < 0
   \<and> TopProducts NewAnalytics (-1) = Inl (SliceBoundsOutOfRange (-1))
   \<and> TopRegions three_products (-1) = Inl (SliceBoundsOutOfRange (-1))"
  using negative_limit_panics [of "-1" NewAnalytics]
    negative_limit_panics [of "-1" three_products]
  by simp

end
